theory Spec2Isabelle
  imports Complex_Main
begin

section \<open>Tensors and the TensorFlow primitives used by modules.py\<close>

text \<open>
  A rank-3 tensor indexed (batch, time, channel): its three dimensions and its elements.
  Elements are real numbers; only the elements at indices inside the dimensions are
  part of the tensor, the others are never read by any operation below.
\<close>

record tensor =
  nbatch :: nat
  ntime :: nat
  nchan :: nat
  elem :: "nat \<Rightarrow> nat \<Rightarrow> nat \<Rightarrow> real"

text \<open>The exceptions a constructor or a forward call of modules.py can raise.\<close>

datatype error =
    ConfigurationError
  | InvalidPaddings
  | IncompatibleShapes
  | MissingConditioning
  | MissingAttribute
  | EmptyInputList
  | NotATensor

definition bind_r :: "error + 'a \<Rightarrow> ('a \<Rightarrow> error + 'b) \<Rightarrow> error + 'b" where
  "bind_r r f = (case r of Inl e \<Rightarrow> Inl e | Inr v \<Rightarrow> f v)"

definition same_shape :: "tensor \<Rightarrow> tensor \<Rightarrow> bool" where
  "same_shape x y \<longleftrightarrow> nbatch x = nbatch y \<and> ntime x = ntime y \<and> nchan x = nchan y"

text \<open>
  \<^verbatim>\<open>tf.pad(tensor, ((0, 0), (lo, hi), (0, 0)))\<close>: zero padding of the time axis;
  negative paddings are rejected.
\<close>

definition tf_pad :: "tensor \<Rightarrow> int \<Rightarrow> int \<Rightarrow> error + tensor" where
  "tf_pad x lo hi =
     (if lo < 0 \<or> hi < 0 then Inl InvalidPaddings
      else Inr \<lparr>nbatch = nbatch x, ntime = nat lo + ntime x + nat hi, nchan = nchan x,
                elem = (\<lambda>b t c. if nat lo \<le> t \<and> t < nat lo + ntime x
                                  then elem x b (t - nat lo) c else 0)\<rparr>)"

text \<open>
  The stop index of a Python slice \<^verbatim>\<open>[:e]\<close> on an axis of length \<open>n\<close>: a negative
  \<open>e\<close> counts from the end, and the result is clipped to the axis.
\<close>

definition slice_stop :: "int \<Rightarrow> nat \<Rightarrow> nat" where
  "slice_stop e n = (if e < 0 then nat (max 0 (int n + e)) else min (nat e) n)"

text \<open>\<^verbatim>\<open>out[:, :e]\<close>: the first \<open>slice_stop e\<close> time steps.\<close>

definition slice_time :: "tensor \<Rightarrow> int \<Rightarrow> tensor" where
  "slice_time x e = x\<lparr>ntime := slice_stop e (ntime x)\<rparr>"

text \<open>Element-wise operations: \<^verbatim>\<open>tf.tanh\<close>, \<^verbatim>\<open>tf.sigmoid\<close>, \<^verbatim>\<open>tf.nn.relu\<close>,
  \<^verbatim>\<open>tf.exp\<close>, and multiplication by a scalar.\<close>

definition map_tensor :: "(real \<Rightarrow> real) \<Rightarrow> tensor \<Rightarrow> tensor" where
  "map_tensor f x = x\<lparr>elem := (\<lambda>b t c. f (elem x b t c))\<rparr>"

definition sigmoid :: "real \<Rightarrow> real" where
  "sigmoid v = 1 / (1 + exp (- v))"

definition relu :: "real \<Rightarrow> real" where
  "relu v = max 0 v"

definition tf_tanh :: "tensor \<Rightarrow> tensor" where
  "tf_tanh = map_tensor tanh"

definition tf_sigmoid :: "tensor \<Rightarrow> tensor" where
  "tf_sigmoid = map_tensor sigmoid"

definition tf_relu :: "tensor \<Rightarrow> tensor" where
  "tf_relu = map_tensor relu"

definition tf_exp :: "tensor \<Rightarrow> tensor" where
  "tf_exp = map_tensor exp"

definition scalar_mul :: "tensor \<Rightarrow> real \<Rightarrow> tensor" where
  "scalar_mul x r = map_tensor (\<lambda>v. v * r) x"

text \<open>
  Binary element-wise operators (\<^verbatim>\<open>+\<close>, \<^verbatim>\<open>*\<close>) broadcast: two dimensions are
  compatible when they are equal or one of them is 1, and a dimension of 1 is
  stretched to the other one.
\<close>

definition bdim :: "nat \<Rightarrow> nat \<Rightarrow> nat option" where
  "bdim m n = (if m = n then Some m else if m = 1 then Some n
               else if n = 1 then Some m else None)"

definition bidx :: "nat \<Rightarrow> nat \<Rightarrow> nat" where
  "bidx n i = (if n = 1 then 0 else i)"

definition bcast_elem :: "tensor \<Rightarrow> nat \<Rightarrow> nat \<Rightarrow> nat \<Rightarrow> real" where
  "bcast_elem x b t c = elem x (bidx (nbatch x) b) (bidx (ntime x) t) (bidx (nchan x) c)"

definition tf_binop :: "(real \<Rightarrow> real \<Rightarrow> real) \<Rightarrow> tensor \<Rightarrow> tensor \<Rightarrow> error + tensor" where
  "tf_binop f x y =
     (case bdim (nbatch x) (nbatch y) of None \<Rightarrow> Inl IncompatibleShapes | Some B \<Rightarrow>
     (case bdim (ntime x) (ntime y) of None \<Rightarrow> Inl IncompatibleShapes | Some T \<Rightarrow>
     (case bdim (nchan x) (nchan y) of None \<Rightarrow> Inl IncompatibleShapes | Some C \<Rightarrow>
        Inr \<lparr>nbatch = B, ntime = T, nchan = C,
             elem = (\<lambda>b t c. f (bcast_elem x b t c) (bcast_elem y b t c))\<rparr>)))"

definition tf_add :: "tensor \<Rightarrow> tensor \<Rightarrow> error + tensor" where
  "tf_add = tf_binop (+)"

definition tf_mul :: "tensor \<Rightarrow> tensor \<Rightarrow> error + tensor" where
  "tf_mul = tf_binop (*)"

text \<open>
  \<^verbatim>\<open>tf.add_n(inputs)\<close>: the element-wise sum of a non-empty list of tensors of one
  shape (no broadcasting); an entry that is \<^verbatim>\<open>None\<close> is not a tensor.
\<close>

fun tf_add_n :: "tensor option list \<Rightarrow> error + tensor" where
  "tf_add_n [] = Inl EmptyInputList"
| "tf_add_n (None # ys) = Inl NotATensor"
| "tf_add_n (Some x # ys) =
     (if list_all (\<lambda>y. case y of None \<Rightarrow> False | Some _ \<Rightarrow> True) ys
      then (if list_all (\<lambda>y. same_shape (the y) x) ys
            then Inr (x\<lparr>elem := (\<lambda>b t c. elem x b t c + sum_list (map (\<lambda>y. elem (the y) b t c) ys))\<rparr>)
            else Inl IncompatibleShapes)
      else Inl NotATensor)"

section \<open>Conv1D\<close>

text \<open>
  Modelled from the spec: the layer class \<^verbatim>\<open>Conv1D\<close> that modules.py imports from
  the module \<^verbatim>\<open>convolutional\<close>, which is not among the source files. The spec
  gives it a weight tensor of shape (kernel_size, in_channels, out_channels) and a bias
  vector of length out_channels, a dilation and `valid' (no further padding) semantics.
  The layer object holds the configuration it is constructed with, among it the two
  initializers that modules.py passes; the values of its variables are held outside it
  (\<open>Conv1D_params\<close>), and its kernel takes the channel count of the input it is
  applied to.
\<close>

datatype initializer = he_uniform | zeros

record Conv1D =
  filters :: nat
  kernel_size :: int
  dilation_rate :: int
  kernel_initializer :: initializer
  bias_initializer :: initializer

record Conv1D_params =
  kernel :: "nat \<Rightarrow> nat \<Rightarrow> nat \<Rightarrow> real"
  bias :: "nat \<Rightarrow> real"

text \<open>
  Modelled from the spec: the constructor of \<^verbatim>\<open>Conv1D\<close>, with every \<^verbatim>\<open>padding\<close>
  argument being \<^verbatim>\<open>'valid'\<close>. The spec makes a kernel size or a dilation that is not
  positive a configuration error at construction; \<^verbatim>\<open>Conv.__init__\<close> has no check of
  its own, so the error is that of this constructor.
\<close>

definition Conv1D_init :: "nat \<Rightarrow> int \<Rightarrow> int \<Rightarrow> initializer \<Rightarrow> initializer \<Rightarrow> error + Conv1D" where
  "Conv1D_init n k d ki bi =
     (if k \<le> 0 \<or> d \<le> 0 then Inl ConfigurationError
      else Inr \<lparr>filters = n, kernel_size = k, dilation_rate = d,
                kernel_initializer = ki, bias_initializer = bi\<rparr>)"

text \<open>
  Modelled from the spec: applying a \<^verbatim>\<open>Conv1D\<close> layer, the `valid' convolution. There
  is one output step for every position at which the dilated kernel lies inside the
  input, each the bias plus the sum over the kernel taps and the input channels.
\<close>

definition Conv1D_call :: "Conv1D \<Rightarrow> Conv1D_params \<Rightarrow> tensor \<Rightarrow> tensor" where
  "Conv1D_call l p x =
     \<lparr>nbatch = nbatch x,
      ntime = ntime x - nat (dilation_rate l) * (nat (kernel_size l) - 1),
      nchan = filters l,
      elem = (\<lambda>b t c. bias p c +
                (\<Sum>j<nat (kernel_size l). \<Sum>i<nchan x.
                    kernel p j i c * elem x b (t + j * nat (dilation_rate l)) i))\<rparr>"




section \<open>class Conv\<close>

record Conv =
  Conv_causal :: bool
  Conv_padding :: int
  Conv_conv :: Conv1D

definition Conv_init :: "nat \<Rightarrow> nat \<Rightarrow> int \<Rightarrow> int \<Rightarrow> bool \<Rightarrow> error + Conv" where
  "Conv_init in_channels out_channels ksize dilation causal =
     (let padding = (if causal then dilation * (ksize - 1)
                     else dilation * (ksize - 1) div 2)
      in bind_r (Conv1D_init out_channels ksize dilation he_uniform zeros)
           (\<lambda>l. Inr \<lparr>Conv_causal = causal, Conv_padding = padding, Conv_conv = l\<rparr>))"

definition Conv_forward :: "Conv \<Rightarrow> Conv1D_params \<Rightarrow> tensor \<Rightarrow> error + tensor" where
  "Conv_forward cv p x =
     bind_r (tf_pad x (Conv_padding cv) (Conv_padding cv))
       (\<lambda>padded_tensor.
          let out = Conv1D_call (Conv_conv cv) p padded_tensor
          in if Conv_causal cv \<and> Conv_padding cv \<noteq> 0
             then Inr (slice_time out (- Conv_padding cv))
             else Inr out)"

section \<open>class ZeroConv1d\<close>

record ZeroConv1d =
  Zero_conv :: Conv1D
  Zero_scale_channels :: nat
  Zero_scale_initializer :: initializer

record ZeroConv1d_params =
  Zero_conv_params :: Conv1D_params
  Zero_scale :: "nat \<Rightarrow> real"

definition ZeroConv1d_init :: "nat \<Rightarrow> nat \<Rightarrow> error + ZeroConv1d" where
  "ZeroConv1d_init in_channel out_channel =
     bind_r (Conv1D_init out_channel 1 1 zeros zeros)
       (\<lambda>l. Inr \<lparr>Zero_conv = l, Zero_scale_channels = out_channel,
                  Zero_scale_initializer = zeros\<rparr>)"

text \<open>The variable \<^verbatim>\<open>scale\<close> as the tensor of shape [1, 1, out_channel] it is.\<close>

definition scale_tensor :: "ZeroConv1d \<Rightarrow> ZeroConv1d_params \<Rightarrow> tensor" where
  "scale_tensor z p =
     \<lparr>nbatch = 1, ntime = 1, nchan = Zero_scale_channels z, elem = (\<lambda>b t c. Zero_scale p c)\<rparr>"

definition ZeroConv1d_forward :: "ZeroConv1d \<Rightarrow> ZeroConv1d_params \<Rightarrow> tensor \<Rightarrow> error + tensor" where
  "ZeroConv1d_forward z p x =
     (let out = Conv1D_call (Zero_conv z) (Zero_conv_params p) x
      in tf_mul out (tf_exp (scalar_mul (scale_tensor z p) 3)))"


section \<open>class ResBlock\<close>

record ResBlock =
  Res_causal :: bool
  Res_local_conditioning :: bool
  Res_cin_channels :: "nat option"
  Res_skip :: bool
  Res_filter_conv :: Conv
  Res_gate_conv :: Conv
  Res_res_conv :: Conv1D
  Res_skip_conv :: "Conv1D option"
  Res_filter_conv_c :: "Conv1D option"
  Res_gate_conv_c :: "Conv1D option"

record ResBlock_params =
  p_filter_conv :: Conv1D_params
  p_gate_conv :: Conv1D_params
  p_res_conv :: Conv1D_params
  p_skip_conv :: Conv1D_params
  p_filter_conv_c :: Conv1D_params
  p_gate_conv_c :: Conv1D_params

text \<open>An attribute that the constructor sets only under a condition.\<close>

definition optional_layer :: "bool \<Rightarrow> error + Conv1D \<Rightarrow> error + Conv1D option" where
  "optional_layer cond mk = (if cond then bind_r mk (\<lambda>l. Inr (Some l)) else Inr None)"

definition ResBlock_init ::
  "nat \<Rightarrow> nat \<Rightarrow> nat option \<Rightarrow> int \<Rightarrow> int \<Rightarrow> nat option \<Rightarrow> bool \<Rightarrow> bool \<Rightarrow> error + ResBlock" where
  "ResBlock_init in_channels out_channels skip_channels ksize dilation cin_channels
       local_conditioning causal =
     (let skip = (if skip_channels \<noteq> None then True else False) in
      bind_r (Conv_init in_channels out_channels ksize dilation causal) (\<lambda>filter_conv.
      bind_r (Conv_init in_channels out_channels ksize dilation causal) (\<lambda>gate_conv.
      bind_r (Conv1D_init out_channels 1 1 he_uniform zeros) (\<lambda>res_conv.
      bind_r (optional_layer skip (Conv1D_init (the skip_channels) 1 1 he_uniform zeros)) (\<lambda>skip_conv.
      bind_r (optional_layer local_conditioning (Conv1D_init out_channels 1 1 he_uniform zeros)) (\<lambda>filter_conv_c.
      bind_r (optional_layer local_conditioning (Conv1D_init out_channels 1 1 he_uniform zeros)) (\<lambda>gate_conv_c.
        Inr \<lparr>Res_causal = causal, Res_local_conditioning = local_conditioning,
             Res_cin_channels = cin_channels, Res_skip = skip,
             Res_filter_conv = filter_conv, Res_gate_conv = gate_conv,
             Res_res_conv = res_conv, Res_skip_conv = skip_conv,
             Res_filter_conv_c = filter_conv_c, Res_gate_conv_c = gate_conv_c\<rparr>)))))))"

text \<open>Calling a layer attribute on an argument; the attribute or the argument may be absent.\<close>

definition call_layer :: "Conv1D option \<Rightarrow> Conv1D_params \<Rightarrow> tensor option \<Rightarrow> error + tensor" where
  "call_layer l p x =
     (case l of None \<Rightarrow> Inl MissingAttribute
      | Some l' \<Rightarrow> (case x of None \<Rightarrow> Inl MissingConditioning
                    | Some x' \<Rightarrow> Inr (Conv1D_call l' p x')))"

text \<open>\<^verbatim>\<open>h += layer(c)\<close> when local conditioning is on.\<close>

definition add_conditioning ::
  "bool \<Rightarrow> Conv1D option \<Rightarrow> Conv1D_params \<Rightarrow> tensor option \<Rightarrow> tensor \<Rightarrow> error + tensor" where
  "add_conditioning cond l p c h =
     (if cond then bind_r (call_layer l p c) (\<lambda>hc. tf_add h hc) else Inr h)"

definition activated ::
  "ResBlock \<Rightarrow> ResBlock_params \<Rightarrow> tensor \<Rightarrow> tensor option \<Rightarrow> error + tensor" where
  "activated rb p x c =
     bind_r (Conv_forward (Res_filter_conv rb) (p_filter_conv p) x) (\<lambda>h_filter.
     bind_r (Conv_forward (Res_gate_conv rb) (p_gate_conv p) x) (\<lambda>h_gate.
     bind_r (add_conditioning (Res_local_conditioning rb) (Res_filter_conv_c rb)
               (p_filter_conv_c p) c h_filter) (\<lambda>h_filter.
     bind_r (add_conditioning (Res_local_conditioning rb) (Res_gate_conv_c rb)
               (p_gate_conv_c p) c h_gate) (\<lambda>h_gate.
       tf_mul (tf_tanh h_filter) (tf_sigmoid h_gate)))))"

definition ResBlock_forward ::
  "ResBlock \<Rightarrow> ResBlock_params \<Rightarrow> tensor \<Rightarrow> tensor option \<Rightarrow> error + (tensor \<times> tensor option)" where
  "ResBlock_forward rb p x c =
     bind_r (activated rb p x c) (\<lambda>out.
       let res = Conv1D_call (Res_res_conv rb) (p_res_conv p) out in
       bind_r (if Res_skip rb
               then bind_r (call_layer (Res_skip_conv rb) (p_skip_conv p) (Some out))
                      (\<lambda>s. Inr (Some s))
               else Inr None) (\<lambda>skip.
       bind_r (tf_add x res) (\<lambda>sum. Inr (scalar_mul sum (sqrt 0.5), skip))))"

section \<open>class WaveNet\<close>

record WaveNet =
  Wave_skip :: bool
  Wave_front_conv :: Conv
  Wave_res_blocks :: "ResBlock list"
  Wave_final_conv :: Conv
  Wave_final_zero_conv :: ZeroConv1d

record WaveNet_params =
  p_front_conv :: Conv1D_params
  p_res_blocks :: "nat \<Rightarrow> ResBlock_params"
  p_final_conv :: Conv1D_params
  p_final_zero_conv :: ZeroConv1d_params

text \<open>\<^verbatim>\<open>range(n)\<close> for a Python integer \<open>n\<close>: empty when \<open>n\<close> is not positive.\<close>

definition py_range :: "int \<Rightarrow> nat list" where
  "py_range n = [0..<nat n]"

text \<open>The inner loop \<^verbatim>\<open>for n in range(num_layers)\<close>, appending to the list of blocks.\<close>

fun layers_loop ::
  "nat \<Rightarrow> nat \<Rightarrow> nat option \<Rightarrow> int \<Rightarrow> nat option \<Rightarrow> bool \<Rightarrow> nat list \<Rightarrow> ResBlock list
     \<Rightarrow> error + ResBlock list" where
  "layers_loop residual_channels gate_channels skip_channels ksize cin_channels causal [] blocks =
     Inr blocks"
| "layers_loop residual_channels gate_channels skip_channels ksize cin_channels causal (n # ns) blocks =
     bind_r (ResBlock_init residual_channels gate_channels skip_channels ksize (ksize ^ n)
               cin_channels True causal)
       (\<lambda>rb. layers_loop residual_channels gate_channels skip_channels ksize cin_channels causal
                ns (blocks @ [rb]))"

text \<open>The outer loop \<^verbatim>\<open>for b in range(num_blocks)\<close>.\<close>

fun blocks_loop ::
  "nat \<Rightarrow> nat \<Rightarrow> nat option \<Rightarrow> int \<Rightarrow> nat option \<Rightarrow> bool \<Rightarrow> int \<Rightarrow> nat list \<Rightarrow> ResBlock list
     \<Rightarrow> error + ResBlock list" where
  "blocks_loop residual_channels gate_channels skip_channels ksize cin_channels causal num_layers
       [] blocks = Inr blocks"
| "blocks_loop residual_channels gate_channels skip_channels ksize cin_channels causal num_layers
       (b # bs) blocks =
     bind_r (layers_loop residual_channels gate_channels skip_channels ksize cin_channels causal
               (py_range num_layers) blocks)
       (\<lambda>blocks'. blocks_loop residual_channels gate_channels skip_channels ksize cin_channels
                     causal num_layers bs blocks')"

definition WaveNet_init ::
  "nat \<Rightarrow> nat \<Rightarrow> int \<Rightarrow> int \<Rightarrow> nat \<Rightarrow> nat \<Rightarrow> nat option \<Rightarrow> int \<Rightarrow> nat option \<Rightarrow> bool
     \<Rightarrow> error + WaveNet" where
  "WaveNet_init in_channels out_channels num_blocks num_layers residual_channels gate_channels
       skip_channels ksize cin_channels causal =
     (let skip = (if skip_channels \<noteq> None then True else False) in
      bind_r (Conv_init in_channels residual_channels 3 1 causal) (\<lambda>front_conv.
      bind_r (blocks_loop residual_channels gate_channels skip_channels ksize cin_channels causal
                num_layers (py_range num_blocks) []) (\<lambda>res_blocks.
      let last_channels = (if skip then the skip_channels else residual_channels) in
      bind_r (Conv_init last_channels last_channels 1 1 causal) (\<lambda>final_conv.
      bind_r (ZeroConv1d_init last_channels out_channels) (\<lambda>final_zero_conv.
        Inr \<lparr>Wave_skip = skip, Wave_front_conv = front_conv, Wave_res_blocks = res_blocks,
             Wave_final_conv = final_conv, Wave_final_zero_conv = final_zero_conv\<rparr>)))))"

text \<open>
  The loop \<^verbatim>\<open>for i, f in enumerate(self._res_blocks)\<close> of \<^verbatim>\<open>WaveNet.forward\<close>,
  with the running stream \<open>h\<close> and the list \<open>skip\<close>.
\<close>

fun res_loop ::
  "bool \<Rightarrow> (nat \<Rightarrow> ResBlock_params) \<Rightarrow> tensor option \<Rightarrow> nat \<Rightarrow> ResBlock list \<Rightarrow> tensor
     \<Rightarrow> tensor option list \<Rightarrow> error + (tensor \<times> tensor option list)" where
  "res_loop sk p c i [] h skip = Inr (h, skip)"
| "res_loop sk p c i (f # fs) h skip =
     bind_r (ResBlock_forward f (p i) h c)
       (\<lambda>(h', s). res_loop sk p c (Suc i) fs h' (if sk then skip @ [s] else skip))"

text \<open>The two-stage output projection shared by both branches of \<^verbatim>\<open>WaveNet.forward\<close>.\<close>

definition output_projection :: "WaveNet \<Rightarrow> WaveNet_params \<Rightarrow> tensor \<Rightarrow> error + tensor" where
  "output_projection w p out =
     (let out = tf_relu out in
      bind_r (Conv_forward (Wave_final_conv w) (p_final_conv p) out) (\<lambda>out.
      let out = tf_relu out in
      ZeroConv1d_forward (Wave_final_zero_conv w) (p_final_zero_conv p) out))"

definition WaveNet_forward :: "WaveNet \<Rightarrow> WaveNet_params \<Rightarrow> tensor \<Rightarrow> tensor option \<Rightarrow> error + tensor" where
  "WaveNet_forward w p x c =
     bind_r (Conv_forward (Wave_front_conv w) (p_front_conv p) x) (\<lambda>h.
     let h = tf_relu h in
     bind_r (res_loop (Wave_skip w) (p_res_blocks p) c 0 (Wave_res_blocks w) h []) (\<lambda>(h, skip).
       if Wave_skip w
       then bind_r (tf_add_n skip) (\<lambda>out. output_projection w p out)
       else output_projection w p h))"

section \<open>Example values\<close>

text \<open>A batch of one sequence 1, 2, 3, 4 with one channel.\<close>

definition ramp :: tensor where
  "ramp = \<lparr>nbatch = 1, ntime = 4, nchan = 1, elem = (\<lambda>b t c. real t + 1)\<rparr>"

text \<open>The variables of a \<^verbatim>\<open>ZeroConv1d\<close> right after their creation.\<close>

definition zero_params :: ZeroConv1d_params where
  "zero_params =
     \<lparr>Zero_conv_params = \<lparr>kernel = (\<lambda>_ _ _. 0), bias = (\<lambda>_. 0)\<rparr>, Zero_scale = (\<lambda>_. 0)\<rparr>"

text \<open>Variables and layers of the examples.\<close>

definition unit_params :: Conv1D_params where
  "unit_params = \<lparr>kernel = (\<lambda>j i c. 1), bias = (\<lambda>c. 0)\<rparr>"

definition causal_conv_3_2 :: Conv where
  "causal_conv_3_2 =
     \<lparr>Conv_causal = True, Conv_padding = 4,
      Conv_conv = \<lparr>filters = 1, kernel_size = 3, dilation_rate = 2,
                   kernel_initializer = he_uniform, bias_initializer = zeros\<rparr>\<rparr>"

definition causal_conv_1_1 :: Conv where
  "causal_conv_1_1 =
     \<lparr>Conv_causal = True, Conv_padding = 0,
      Conv_conv = \<lparr>filters = 1, kernel_size = 1, dilation_rate = 1,
                   kernel_initializer = he_uniform, bias_initializer = zeros\<rparr>\<rparr>"

definition centered_conv_3_1 :: Conv where
  "centered_conv_3_1 =
     \<lparr>Conv_causal = False, Conv_padding = 1,
      Conv_conv = \<lparr>filters = 1, kernel_size = 3, dilation_rate = 1,
                   kernel_initializer = he_uniform, bias_initializer = zeros\<rparr>\<rparr>"

definition centered_conv_2_1 :: Conv where
  "centered_conv_2_1 =
     \<lparr>Conv_causal = False, Conv_padding = 0,
      Conv_conv = \<lparr>filters = 1, kernel_size = 2, dilation_rate = 1,
                   kernel_initializer = he_uniform, bias_initializer = zeros\<rparr>\<rparr>"

text \<open>What \<^verbatim>\<open>WaveNet(num_blocks=0, residual_channels=256, skip_channels=256)\<close> builds.\<close>

definition empty_stack :: WaveNet where
  "empty_stack =
     \<lparr>Wave_skip = True,
      Wave_front_conv =
        \<lparr>Conv_causal = True, Conv_padding = 2,
         Conv_conv = \<lparr>filters = 256, kernel_size = 3, dilation_rate = 1,
                      kernel_initializer = he_uniform, bias_initializer = zeros\<rparr>\<rparr>,
      Wave_res_blocks = [],
      Wave_final_conv =
        \<lparr>Conv_causal = True, Conv_padding = 0,
         Conv_conv = \<lparr>filters = 256, kernel_size = 1, dilation_rate = 1,
                      kernel_initializer = he_uniform, bias_initializer = zeros\<rparr>\<rparr>,
      Wave_final_zero_conv =
        \<lparr>Zero_conv = \<lparr>filters = 2, kernel_size = 1, dilation_rate = 1,
                      kernel_initializer = zeros, bias_initializer = zeros\<rparr>,
         Zero_scale_channels = 2, Zero_scale_initializer = zeros\<rparr>\<rparr>"

text \<open>Residual blocks of the examples, and variables for them.\<close>

definition widening_block :: ResBlock where
  "widening_block =
     (let cv = \<lparr>Conv_causal = True, Conv_padding = 2,
                 Conv_conv = \<lparr>filters = 2, kernel_size = 3, dilation_rate = 1,
                              kernel_initializer = he_uniform, bias_initializer = zeros\<rparr>\<rparr>;
          pw = \<lparr>filters = 2, kernel_size = 1, dilation_rate = 1,
                 kernel_initializer = he_uniform, bias_initializer = zeros\<rparr>
      in \<lparr>Res_causal = True, Res_local_conditioning = False, Res_cin_channels = None,
          Res_skip = False, Res_filter_conv = cv, Res_gate_conv = cv, Res_res_conv = pw,
          Res_skip_conv = None, Res_filter_conv_c = None, Res_gate_conv_c = None\<rparr>)"

definition gated_block :: ResBlock where
  "gated_block =
     (let cv = \<lparr>Conv_causal = True, Conv_padding = 2,
                 Conv_conv = \<lparr>filters = 1, kernel_size = 3, dilation_rate = 1,
                              kernel_initializer = he_uniform, bias_initializer = zeros\<rparr>\<rparr>;
          pw = \<lparr>filters = 1, kernel_size = 1, dilation_rate = 1,
                 kernel_initializer = he_uniform, bias_initializer = zeros\<rparr>
      in \<lparr>Res_causal = True, Res_local_conditioning = True, Res_cin_channels = Some 1,
          Res_skip = True, Res_filter_conv = cv, Res_gate_conv = cv, Res_res_conv = pw,
          Res_skip_conv = Some pw, Res_filter_conv_c = Some pw, Res_gate_conv_c = Some pw\<rparr>)"

definition unit_block_params :: ResBlock_params where
  "unit_block_params =
     \<lparr>p_filter_conv = unit_params, p_gate_conv = unit_params, p_res_conv = unit_params,
      p_skip_conv = unit_params, p_filter_conv_c = unit_params, p_gate_conv_c = unit_params\<rparr>"

text \<open>
  Two tensors of one shape agree up to time \<open>t\<close> when their elements at every time
  index \<open>u \<le> t\<close> are equal; the elements at later time indices may differ.
\<close>

definition agree :: "nat \<Rightarrow> tensor \<Rightarrow> tensor \<Rightarrow> bool" where
  "agree t x x' \<longleftrightarrow>
     same_shape x x' \<and>
     (\<forall>b<nbatch x. \<forall>u<ntime x. \<forall>c<nchan x. u \<le> t \<longrightarrow> elem x b u c = elem x' b u c)"

text \<open>The sequence 1, 2, 3, 100: \<open>ramp\<close> with its last time step changed.\<close>

definition ramp_changed :: tensor where
  "ramp_changed =
     \<lparr>nbatch = 1, ntime = 4, nchan = 1, elem = (\<lambda>b t c. if t = 3 then 100 else real t + 1)\<rparr>"

definition unit_wave_params :: WaveNet_params where
  "unit_wave_params =
     \<lparr>p_front_conv = unit_params, p_res_blocks = (\<lambda>i. unit_block_params),
      p_final_conv = unit_params, p_final_zero_conv = zero_params\<rparr>"

section \<open>Basic facts\<close>

lemma bdim_one_right: "bdim m (Suc 0) = Some m"
  by (simp add: bdim_def)

lemma bdim_same: "bdim m m = Some m"
  by (simp add: bdim_def)

section \<open>ZeroConv1d at initialization\<close>



section \<open>Conv: padding, truncation and time-length\<close>

lemma bind_r_Inl [simp]: "bind_r (Inl e) f = Inl e"
  by (simp add: bind_r_def)

lemma bind_r_Inr [simp]: "bind_r (Inr v) f = f v"
  by (simp add: bind_r_def)

lemma bind_r_eq_Inr: "bind_r r f = Inr y \<longleftrightarrow> (\<exists>v. r = Inr v \<and> f v = Inr y)"
  by (cases r) simp_all

lemma Conv1D_init_eq_Inr:
  "Conv1D_init n k d ki bi = Inr l \<longleftrightarrow>
     0 < k \<and> 0 < d \<and> l = \<lparr>filters = n, kernel_size = k, dilation_rate = d,
                             kernel_initializer = ki, bias_initializer = bi\<rparr>"
  by (auto simp add: Conv1D_init_def)

lemma Conv_init_eq_Inr:
  "Conv_init i n k d c = Inr cv \<longleftrightarrow>
     0 < k \<and> 0 < d \<and>
     cv = \<lparr>Conv_causal = c,
           Conv_padding = (if c then d * (k - 1) else d * (k - 1) div 2),
           Conv_conv = \<lparr>filters = n, kernel_size = k, dilation_rate = d,
                        kernel_initializer = he_uniform, bias_initializer = zeros\<rparr>\<rparr>"
  by (auto simp add: Conv_init_def Let_def bind_r_eq_Inr Conv1D_init_eq_Inr)

lemma nat_extent: "0 < k \<Longrightarrow> 0 < d \<Longrightarrow> nat d * (nat k - 1) = nat (d * (k - 1))"
  by (simp add: nat_mult_distrib nat_diff_distrib)

lemma slice_stop_neg: "0 < e \<Longrightarrow> slice_stop (- e) n = n - nat e"
  by (auto simp add: slice_stop_def)

lemma slice_stop_zero: "slice_stop 0 n = 0"
  by (simp add: slice_stop_def)

lemma Conv1D_call_dims [simp]:
  "nbatch (Conv1D_call l p x) = nbatch x"
  "ntime (Conv1D_call l p x) = ntime x - nat (dilation_rate l) * (nat (kernel_size l) - 1)"
  "nchan (Conv1D_call l p x) = filters l"
  by (simp_all add: Conv1D_call_def)

lemma tf_pad_Inr:
  "0 \<le> P \<Longrightarrow> tf_pad x P P =
     Inr \<lparr>nbatch = nbatch x, ntime = nat P + ntime x + nat P, nchan = nchan x,
          elem = (\<lambda>b t c. if nat P \<le> t \<and> t < nat P + ntime x
                            then elem x b (t - nat P) c else 0)\<rparr>"
  by (simp add: tf_pad_def)

lemma slice_time_dims [simp]:
  "nbatch (slice_time x e) = nbatch x"
  "ntime (slice_time x e) = slice_stop e (ntime x)"
  "nchan (slice_time x e) = nchan x"
  "elem (slice_time x e) = elem x"
  by (simp_all add: slice_time_def)

text \<open>
  C3: A Conv constructed with causal = true has padding P = dilation * (kernel_size - 1);
  forward pads the time axis by P on both sides (time-length T + 2P), the `valid'
  convolution leaves T + P steps, the last P of them are discarded when P is not 0,
  and the output has the time-length T of the input (and out_channels channels).
\<close>

theorem causal_conv_time_length:
  assumes "Conv_init in_channels out_channels k d True = Inr cv"
  shows "Conv_padding cv = d * (k - 1) \<and>
    (\<exists>padded. tf_pad x (d * (k - 1)) (d * (k - 1)) = Inr padded \<and>
       ntime padded = ntime x + 2 * nat (d * (k - 1)) \<and>
       ntime (Conv1D_call (Conv_conv cv) p padded) = ntime x + nat (d * (k - 1)) \<and>
       Conv_forward cv p x =
         Inr (if d * (k - 1) \<noteq> 0
              then slice_time (Conv1D_call (Conv_conv cv) p padded) (- (d * (k - 1)))
              else Conv1D_call (Conv_conv cv) p padded)) \<and>
    (\<exists>y. Conv_forward cv p x = Inr y \<and> ntime y = ntime x \<and> nbatch y = nbatch x \<and>
       nchan y = out_channels)"
proof -
  from assms have k: "0 < k" and d: "0 < d"
    and cv: "cv = \<lparr>Conv_causal = True, Conv_padding = d * (k - 1),
           Conv_conv = \<lparr>filters = out_channels, kernel_size = k, dilation_rate = d,
                        kernel_initializer = he_uniform, bias_initializer = zeros\<rparr>\<rparr>"
    by (simp_all add: Conv_init_eq_Inr)
  define P where "P = d * (k - 1)"
  have P: "0 \<le> P" using k d by (simp add: P_def)
  have ext: "nat (dilation_rate (Conv_conv cv)) * (nat (kernel_size (Conv_conv cv)) - Suc 0) = nat P"
    using nat_extent [OF k d] by (simp add: cv P_def)
  have pad: "Conv_padding cv = P" and cau: "Conv_causal cv" and fl: "filters (Conv_conv cv) = out_channels"
    by (simp_all add: cv P_def)
  define padded where "padded = \<lparr>nbatch = nbatch x, ntime = nat P + ntime x + nat P, nchan = nchan x,
          elem = (\<lambda>b t c. if nat P \<le> t \<and> t < nat P + ntime x
                            then elem x b (t - nat P) c else 0)\<rparr>"
  have tp: "tf_pad x P P = Inr padded"
    using P by (simp add: tf_pad_Inr padded_def)
  have lp: "ntime padded = ntime x + 2 * nat P" "nbatch padded = nbatch x"
    by (simp_all add: padded_def)
  define out where "out = Conv1D_call (Conv_conv cv) p padded"
  have lo: "ntime out = ntime x + nat P" "nbatch out = nbatch x" "nchan out = out_channels"
    by (simp_all add: out_def ext lp fl)
  have fw: "Conv_forward cv p x = Inr (if P \<noteq> 0 then slice_time out (- P) else out)"
    by (simp add: Conv_forward_def pad cau tp Let_def out_def)
  have ls: "ntime (if P \<noteq> 0 then slice_time out (- P) else out) = ntime x"
    using P by (simp add: lo slice_stop_neg)
  have lb: "nbatch (if P \<noteq> 0 then slice_time out (- P) else out) = nbatch x"
    "nchan (if P \<noteq> 0 then slice_time out (- P) else out) = out_channels"
    by (simp_all add: lo)
  show ?thesis
    unfolding P_def [symmetric] out_def [symmetric]
    using pad tp lp(1) lo(1) fw ls lb unfolding out_def by blast
qed

text \<open>
  C4 (amended): A Conv constructed with causal = false returns an output whose
  time-length equals that of the input when dilation * (kernel_size - 1) is even, and
  is one step shorter when it is odd.
\<close>

theorem noncausal_conv_time_length:
  assumes "Conv_init in_channels out_channels k d False = Inr cv"
  shows "\<exists>y. Conv_forward cv p x = Inr y \<and> nbatch y = nbatch x \<and> nchan y = out_channels \<and>
           ntime y = (if even (d * (k - 1)) then ntime x else ntime x - 1)"
proof -
  from assms have k: "0 < k" and d: "0 < d"
    and cv: "cv = \<lparr>Conv_causal = False, Conv_padding = d * (k - 1) div 2,
           Conv_conv = \<lparr>filters = out_channels, kernel_size = k, dilation_rate = d,
                        kernel_initializer = he_uniform, bias_initializer = zeros\<rparr>\<rparr>"
    by (simp_all add: Conv_init_eq_Inr)
  define e where "e = d * (k - 1)"
  have e: "0 \<le> e" using k d by (simp add: e_def)
  have ext: "nat (dilation_rate (Conv_conv cv)) * (nat (kernel_size (Conv_conv cv)) - Suc 0) = nat e"
    using nat_extent [OF k d] by (simp add: cv e_def)
  have pad: "Conv_padding cv = e div 2" and cau: "\<not> Conv_causal cv"
    and fl: "filters (Conv_conv cv) = out_channels"
    by (simp_all add: cv e_def)
  have h0: "0 \<le> e div 2" using e by simp
  have half: "nat (e div 2) = nat e div 2"
    using e by (simp add: nat_div_distrib)
  have len: "nat (e div 2) + ntime x + nat (e div 2) - nat e
               = (if even e then ntime x else ntime x - 1)"
  proof (cases "even e")
    case True
    then have "even (nat e)" using e by (simp add: even_nat_iff)
    then have "2 * (nat e div 2) = nat e" by simp
    with True show ?thesis unfolding half by simp
  next
    case False
    then have "odd (nat e)" using e by (simp add: even_nat_iff)
    then have "2 * (nat e div 2) + 1 = nat e" by simp
    then have "nat e div 2 + ntime x + nat e div 2 - nat e = ntime x - 1" by linarith
    with False show ?thesis unfolding half by simp
  qed
  define out where "out = Conv1D_call (Conv_conv cv) p
     \<lparr>nbatch = nbatch x, ntime = nat (e div 2) + ntime x + nat (e div 2), nchan = nchan x,
          elem = (\<lambda>b t c. if nat (e div 2) \<le> t \<and> t < nat (e div 2) + ntime x
                            then elem x b (t - nat (e div 2)) c else 0)\<rparr>"
  have fw: "Conv_forward cv p x = Inr out"
    using h0 by (simp add: Conv_forward_def pad cau tf_pad_Inr Let_def out_def)
  have "ntime out = (if even e then ntime x else ntime x - 1)"
    unfolding out_def using len by (simp add: ext)
  moreover have "nbatch out = nbatch x" "nchan out = out_channels"
    by (simp_all add: out_def fl)
  ultimately show ?thesis using fw unfolding e_def by blast
qed


theorem causal_conv_time_length_witness:
  "Conv_init 1 1 3 2 True = Inr causal_conv_3_2 \<and>
   (\<exists>y. Conv_forward causal_conv_3_2 unit_params ramp = Inr y \<and> ntime y = 4 \<and>
      nbatch y = 1 \<and> nchan y = 1)"
proof -
  have h: "Conv_init 1 1 3 2 True = Inr causal_conv_3_2"
    by (simp add: Conv_init_eq_Inr causal_conv_3_2_def)
  from causal_conv_time_length [OF h, of ramp unit_params] h show ?thesis
    by (simp add: ramp_def)
qed

theorem noncausal_conv_time_length_witness:
  "Conv_init 1 1 3 1 False = Inr centered_conv_3_1 \<and>
   (\<exists>y. Conv_forward centered_conv_3_1 unit_params ramp = Inr y \<and> ntime y = 4)"
proof -
  have h: "Conv_init 1 1 3 1 False = Inr centered_conv_3_1"
    by (simp add: Conv_init_eq_Inr centered_conv_3_1_def)
  from noncausal_conv_time_length [OF h, of unit_params ramp] h show ?thesis
    by (auto simp add: ramp_def)
qed

text \<open>
  C4 as stated fails: with kernel_size = 2 and dilation = 1 the padding is 1 div 2 = 0
  and an input of 4 time steps gives an output of 3.
\<close>

theorem noncausal_conv_odd_extent_counterexample:
  "Conv_init 1 1 2 1 False = Inr centered_conv_2_1 \<and>
   map_sum id ntime (Conv_forward centered_conv_2_1 unit_params ramp) = Inr 3 \<and>
   ntime ramp = 4"
  by (simp add: Conv_init_eq_Inr centered_conv_2_1_def Conv_forward_def tf_pad_def Let_def
      ramp_def)

text \<open>
  C9: In the forward of a causal Conv the output of the convolution is truncated by the
  slice exactly when the padding P is not 0. For kernel_size = 1 the padding is 0, the
  output of the convolution is returned as it is, with the time-length of the input,
  whereas the slice \<^verbatim>\<open>out[:, :-0]\<close> would have left no time step.
\<close>

theorem truncation_iff_padding_nonzero:
  assumes "Conv_init in_channels out_channels k d True = Inr cv"
  shows "\<exists>padded. tf_pad x (Conv_padding cv) (Conv_padding cv) = Inr padded \<and>
    (Conv_padding cv \<noteq> 0 \<longrightarrow>
       Conv_forward cv p x =
         Inr (slice_time (Conv1D_call (Conv_conv cv) p padded) (- Conv_padding cv))) \<and>
    (Conv_padding cv = 0 \<longrightarrow>
       Conv_forward cv p x = Inr (Conv1D_call (Conv_conv cv) p padded)) \<and>
    (k = 1 \<longrightarrow> Conv_padding cv = 0 \<and>
       Conv_forward cv p x = Inr (Conv1D_call (Conv_conv cv) p padded) \<and>
       ntime (Conv1D_call (Conv_conv cv) p padded) = ntime x \<and>
       ntime (slice_time (Conv1D_call (Conv_conv cv) p padded) (- Conv_padding cv)) = 0)"
proof -
  from assms have k: "0 < k" and d: "0 < d"
    and cv: "cv = \<lparr>Conv_causal = True, Conv_padding = d * (k - 1),
           Conv_conv = \<lparr>filters = out_channels, kernel_size = k, dilation_rate = d,
                        kernel_initializer = he_uniform, bias_initializer = zeros\<rparr>\<rparr>"
    by (simp_all add: Conv_init_eq_Inr)
  have P: "0 \<le> Conv_padding cv" using k d by (simp add: cv)
  have cau: "Conv_causal cv" by (simp add: cv)
  define padded where "padded = \<lparr>nbatch = nbatch x,
          ntime = nat (Conv_padding cv) + ntime x + nat (Conv_padding cv), nchan = nchan x,
          elem = (\<lambda>b t c. if nat (Conv_padding cv) \<le> t \<and> t < nat (Conv_padding cv) + ntime x
                            then elem x b (t - nat (Conv_padding cv)) c else 0)\<rparr>"
  have tp: "tf_pad x (Conv_padding cv) (Conv_padding cv) = Inr padded"
    using P by (simp add: tf_pad_Inr padded_def)
  have fw1: "Conv_padding cv \<noteq> 0 \<Longrightarrow> Conv_forward cv p x =
         Inr (slice_time (Conv1D_call (Conv_conv cv) p padded) (- Conv_padding cv))"
    by (simp add: Conv_forward_def tp cau Let_def)
  have fw0: "Conv_padding cv = 0 \<Longrightarrow> Conv_forward cv p x = Inr (Conv1D_call (Conv_conv cv) p padded)"
    using tp by (simp add: Conv_forward_def Let_def)
  have k1: "k = 1 \<Longrightarrow> Conv_padding cv = 0" by (simp add: cv)
  have len: "k = 1 \<Longrightarrow> ntime (Conv1D_call (Conv_conv cv) p padded) = ntime x"
    by (simp add: cv padded_def)
  have emp: "k = 1 \<Longrightarrow> ntime (slice_time (Conv1D_call (Conv_conv cv) p padded) (- Conv_padding cv)) = 0"
    by (simp add: k1 slice_stop_zero)
  show ?thesis using tp fw1 fw0 k1 len emp by blast
qed

theorem truncation_iff_padding_nonzero_witness:
  "Conv_init 1 1 1 1 True = Inr causal_conv_1_1 \<and>
   (\<exists>y. Conv_forward causal_conv_1_1 unit_params ramp = Inr y \<and> ntime y = 4 \<and>
      ntime (slice_time y (- Conv_padding causal_conv_1_1)) = 0)"
proof -
  have h: "Conv_init 1 1 1 1 True = Inr causal_conv_1_1"
    by (simp add: Conv_init_eq_Inr causal_conv_1_1_def)
  from truncation_iff_padding_nonzero [OF h, of ramp unit_params] h show ?thesis
    by (auto simp add: ramp_def)
qed

section \<open>Construction: validation and the dilation schedule\<close>

lemma Conv1D_init_unit [simp]:
  "Conv1D_init n 1 1 ki bi =
     Inr \<lparr>filters = n, kernel_size = 1, dilation_rate = 1,
          kernel_initializer = ki, bias_initializer = bi\<rparr>"
  by (simp add: Conv1D_init_def)

lemma Conv_init_Inl: "k \<le> 0 \<or> d \<le> 0 \<Longrightarrow> Conv_init i n k d c = Inl ConfigurationError"
  by (auto simp add: Conv_init_def Conv1D_init_def Let_def)

lemma Conv_init_Inr:
  "0 < k \<Longrightarrow> 0 < d \<Longrightarrow> Conv_init i n k d c =
     Inr \<lparr>Conv_causal = c,
          Conv_padding = (if c then d * (k - 1) else d * (k - 1) div 2),
          Conv_conv = \<lparr>filters = n, kernel_size = k, dilation_rate = d,
                       kernel_initializer = he_uniform, bias_initializer = zeros\<rparr>\<rparr>"
  by (simp add: Conv_init_eq_Inr)

lemma ResBlock_init_Inl:
  "k \<le> 0 \<or> d \<le> 0 \<Longrightarrow> ResBlock_init i n sk k d cin lc c = Inl ConfigurationError"
  by (simp add: ResBlock_init_def Conv_init_Inl Let_def)

lemma ResBlock_init_Inr:
  assumes "0 < k" "0 < d"
  shows "\<exists>rb. ResBlock_init i n sk k d cin lc c = Inr rb \<and>
     Res_causal rb = c \<and> Res_local_conditioning rb = lc \<and> Res_skip rb = (sk \<noteq> None) \<and>
     Conv_init i n k d c = Inr (Res_filter_conv rb) \<and>
     Conv_init i n k d c = Inr (Res_gate_conv rb) \<and>
     Res_res_conv rb = \<lparr>filters = n, kernel_size = 1, dilation_rate = 1,
          kernel_initializer = he_uniform, bias_initializer = zeros\<rparr> \<and>
     Res_skip_conv rb = map_option (\<lambda>m. \<lparr>filters = m, kernel_size = 1, dilation_rate = 1,
          kernel_initializer = he_uniform, bias_initializer = zeros\<rparr>) sk \<and>
     Res_filter_conv_c rb = (if lc then Some \<lparr>filters = n, kernel_size = 1, dilation_rate = 1,
          kernel_initializer = he_uniform, bias_initializer = zeros\<rparr> else None) \<and>
     Res_gate_conv_c rb = (if lc then Some \<lparr>filters = n, kernel_size = 1, dilation_rate = 1,
          kernel_initializer = he_uniform, bias_initializer = zeros\<rparr> else None)"
  using assms
  by (cases sk) (simp_all add: ResBlock_init_def Conv_init_Inr Let_def optional_layer_def)

lemma ResBlock_init_eq_Inr_pos:
  "ResBlock_init i n sk k d cin lc c = Inr rb \<Longrightarrow> 0 < k \<and> 0 < d"
  using ResBlock_init_Inl [of k d i n sk cin lc c] by (cases "k \<le> 0 \<or> d \<le> 0") auto

lemma layers_loop_Inr:
  "layers_loop R G S k cin c ns blocks = Inr res \<Longrightarrow>
     \<exists>rbs. res = blocks @ rbs \<and> length rbs = length ns \<and>
       (\<forall>j<length ns. ResBlock_init R G S k (k ^ (ns ! j)) cin True c = Inr (rbs ! j))"
proof (induction ns arbitrary: blocks)
  case Nil
  then show ?case by simp
next
  case (Cons n ns)
  from Cons.prems obtain rb where rb: "ResBlock_init R G S k (k ^ n) cin True c = Inr rb"
    and rest: "layers_loop R G S k cin c ns (blocks @ [rb]) = Inr res"
    by (auto simp add: bind_r_eq_Inr)
  from Cons.IH [OF rest] obtain rbs where rbs: "res = (blocks @ [rb]) @ rbs"
    "length rbs = length ns"
    "\<forall>j<length ns. ResBlock_init R G S k (k ^ (ns ! j)) cin True c = Inr (rbs ! j)"
    by blast
  have "\<forall>j<length (n # ns). ResBlock_init R G S k (k ^ ((n # ns) ! j)) cin True c = Inr ((rb # rbs) ! j)"
  proof (intro allI impI)
    fix j assume "j < length (n # ns)"
    then show "ResBlock_init R G S k (k ^ ((n # ns) ! j)) cin True c = Inr ((rb # rbs) ! j)"
      using rb rbs(3) by (cases j) simp_all
  qed
  with rbs(1,2) show ?case
    by (intro exI [of _ "rb # rbs"]) simp
qed

lemma layers_loop_succeeds:
  "0 < k \<Longrightarrow> \<exists>res. layers_loop R G S k cin c ns blocks = Inr res"
proof (induction ns arbitrary: blocks)
  case Nil
  then show ?case by simp
next
  case (Cons n ns)
  from Cons.prems have "0 < k ^ n" by simp
  with Cons.prems obtain rb where "ResBlock_init R G S k (k ^ n) cin True c = Inr rb"
    using ResBlock_init_Inr [of k "k ^ n" R G S cin True c] by blast
  with Cons.IH [OF Cons.prems] show ?case by simp
qed

lemma blocks_loop_Inr:
  "blocks_loop R G S k cin c L bs blocks = Inr res \<Longrightarrow>
     \<exists>rbs. res = blocks @ rbs \<and> length rbs = length bs * nat L \<and>
       (\<forall>b<length bs. \<forall>n<nat L.
           ResBlock_init R G S k (k ^ n) cin True c = Inr (rbs ! (b * nat L + n)))"
proof (induction bs arbitrary: blocks)
  case Nil
  then show ?case by simp
next
  case (Cons b bs)
  from Cons.prems obtain mid where mid: "layers_loop R G S k cin c (py_range L) blocks = Inr mid"
    and rest: "blocks_loop R G S k cin c L bs mid = Inr res"
    by (auto simp add: bind_r_eq_Inr)
  from layers_loop_Inr [OF mid] obtain grp where grp: "mid = blocks @ grp"
    "length grp = nat L"
    "\<forall>j<nat L. ResBlock_init R G S k (k ^ j) cin True c = Inr (grp ! j)"
    by (auto simp add: py_range_def)
  from Cons.IH [OF rest] obtain rbs where rbs: "res = mid @ rbs"
    "length rbs = length bs * nat L"
    "\<forall>b<length bs. \<forall>n<nat L.
           ResBlock_init R G S k (k ^ n) cin True c = Inr (rbs ! (b * nat L + n))"
    by blast
  have "\<forall>b'<length (b # bs). \<forall>n<nat L.
           ResBlock_init R G S k (k ^ n) cin True c = Inr ((grp @ rbs) ! (b' * nat L + n))"
  proof (intro allI impI)
    fix b' n assume b': "b' < length (b # bs)" and n: "n < nat L"
    show "ResBlock_init R G S k (k ^ n) cin True c = Inr ((grp @ rbs) ! (b' * nat L + n))"
    proof (cases b')
      case 0
      with n grp(2,3) show ?thesis by (simp add: nth_append)
    next
      case (Suc b'')
      with b' have "b'' < length bs" by simp
      with rbs(3) n have "ResBlock_init R G S k (k ^ n) cin True c = Inr (rbs ! (b'' * nat L + n))"
        by blast
      moreover have "(grp @ rbs) ! (b' * nat L + n) = rbs ! (b'' * nat L + n)"
        using Suc grp(2) by (simp add: nth_append)
      ultimately show ?thesis by simp
    qed
  qed
  with grp(1,2) rbs(1,2) show ?case
    by (intro exI [of _ "grp @ rbs"]) simp
qed

lemma blocks_loop_succeeds:
  "0 < k \<Longrightarrow> \<exists>res. blocks_loop R G S k cin c L bs blocks = Inr res"
proof (induction bs arbitrary: blocks)
  case Nil
  then show ?case by simp
next
  case (Cons b bs)
  from layers_loop_succeeds [OF Cons.prems] obtain mid where
    "layers_loop R G S k cin c (py_range L) blocks = Inr mid" by blast
  with Cons.IH [OF Cons.prems] show ?case by simp
qed

lemma ZeroConv1d_init_Inr:
  "ZeroConv1d_init i n =
     Inr \<lparr>Zero_conv = \<lparr>filters = n, kernel_size = 1, dilation_rate = 1,
                        kernel_initializer = zeros, bias_initializer = zeros\<rparr>,
          Zero_scale_channels = n, Zero_scale_initializer = zeros\<rparr>"
  by (simp add: ZeroConv1d_init_def)

lemma WaveNet_init_eq_Inr:
  "WaveNet_init i n B L R G S k cin c = Inr w \<longleftrightarrow>
     (\<exists>front blocks final zero.
        Conv_init i R 3 1 c = Inr front \<and>
        blocks_loop R G S k cin c L (py_range B) [] = Inr blocks \<and>
        Conv_init (if S \<noteq> None then the S else R) (if S \<noteq> None then the S else R) 1 1 c = Inr final \<and>
        ZeroConv1d_init (if S \<noteq> None then the S else R) n = Inr zero \<and>
        w = \<lparr>Wave_skip = (S \<noteq> None), Wave_front_conv = front, Wave_res_blocks = blocks,
             Wave_final_conv = final, Wave_final_zero_conv = zero\<rparr>)"
  by (auto simp add: WaveNet_init_def Let_def bind_r_eq_Inr)

text \<open>
  C6: The constructor of WaveNet succeeds for every positive kernel size, and whenever
  it succeeds the list of residual blocks has num_blocks * num_layers entries, the
  block at position n of group b (entry b * num_layers + n of the list) being the
  ResBlock constructed with dilation kernel_size ^ n, so that its filter and gate
  convolutions have that dilation rate: the schedule starts again at every group.
\<close>

theorem dilation_schedule:
  "(0 < ksize \<longrightarrow>
      (\<exists>w. WaveNet_init in_channels out_channels num_blocks num_layers residual_channels
              gate_channels skip_channels ksize cin_channels causal = Inr w)) \<and>
   (\<forall>w. WaveNet_init in_channels out_channels num_blocks num_layers residual_channels
              gate_channels skip_channels ksize cin_channels causal = Inr w \<longrightarrow>
      length (Wave_res_blocks w) = nat num_blocks * nat num_layers \<and>
      (0 \<le> num_blocks \<and> 0 \<le> num_layers \<longrightarrow>
         int (length (Wave_res_blocks w)) = num_blocks * num_layers) \<and>
      (\<forall>b<nat num_blocks. \<forall>n<nat num_layers.
         ResBlock_init residual_channels gate_channels skip_channels ksize (ksize ^ n)
             cin_channels True causal = Inr (Wave_res_blocks w ! (b * nat num_layers + n)) \<and>
         dilation_rate (Conv_conv (Res_filter_conv (Wave_res_blocks w ! (b * nat num_layers + n))))
           = ksize ^ n \<and>
         dilation_rate (Conv_conv (Res_gate_conv (Wave_res_blocks w ! (b * nat num_layers + n))))
           = ksize ^ n))"
proof (intro conjI impI allI)
  assume k: "0 < ksize"
  obtain blocks where "blocks_loop residual_channels gate_channels skip_channels ksize cin_channels
      causal num_layers (py_range num_blocks) [] = Inr blocks"
    using blocks_loop_succeeds [OF k] by blast
  then show "\<exists>w. WaveNet_init in_channels out_channels num_blocks num_layers residual_channels
              gate_channels skip_channels ksize cin_channels causal = Inr w"
    by (simp add: WaveNet_init_eq_Inr Conv_init_Inr ZeroConv1d_init_Inr)
next
  fix w
  assume w: "WaveNet_init in_channels out_channels num_blocks num_layers residual_channels
              gate_channels skip_channels ksize cin_channels causal = Inr w"
  then have "blocks_loop residual_channels gate_channels skip_channels ksize cin_channels
      causal num_layers (py_range num_blocks) [] = Inr (Wave_res_blocks w)"
    by (auto simp add: WaveNet_init_eq_Inr)
  from blocks_loop_Inr [OF this] have len: "length (Wave_res_blocks w) = nat num_blocks * nat num_layers"
    and each: "\<forall>b<nat num_blocks. \<forall>n<nat num_layers.
         ResBlock_init residual_channels gate_channels skip_channels ksize (ksize ^ n)
             cin_channels True causal = Inr (Wave_res_blocks w ! (b * nat num_layers + n))"
    by (auto simp add: py_range_def)
  show "length (Wave_res_blocks w) = nat num_blocks * nat num_layers" by (rule len)
  show "int (length (Wave_res_blocks w)) = num_blocks * num_layers"
    if "0 \<le> num_blocks \<and> 0 \<le> num_layers"
    using that len by simp
  fix b n assume b: "b < nat num_blocks" and n: "n < nat num_layers"
  let ?rb = "Wave_res_blocks w ! (b * nat num_layers + n)"
  from each b n have rb: "ResBlock_init residual_channels gate_channels skip_channels ksize (ksize ^ n)
             cin_channels True causal = Inr ?rb" by blast
  then show "ResBlock_init residual_channels gate_channels skip_channels ksize (ksize ^ n)
             cin_channels True causal = Inr ?rb" .
  from ResBlock_init_eq_Inr_pos [OF rb] have pos: "0 < ksize" "0 < ksize ^ n" by simp_all
  from ResBlock_init_Inr [OF pos, of residual_channels gate_channels skip_channels cin_channels True causal] rb
  have "Conv_init residual_channels gate_channels ksize (ksize ^ n) causal = Inr (Res_filter_conv ?rb)"
    "Conv_init residual_channels gate_channels ksize (ksize ^ n) causal = Inr (Res_gate_conv ?rb)"
    by auto
  then show "dilation_rate (Conv_conv (Res_filter_conv ?rb)) = ksize ^ n"
    "dilation_rate (Conv_conv (Res_gate_conv ?rb)) = ksize ^ n"
    by (auto simp add: Conv_init_eq_Inr)
qed


theorem dilation_schedule_witness:
  "\<exists>w. WaveNet_init 1 2 1 3 4 4 (Some 4) 3 (Some 80) True = Inr w \<and>
     length (Wave_res_blocks w) = 3 \<and> int (length (Wave_res_blocks w)) = 1 * 3 \<and>
     dilation_rate (Conv_conv (Res_filter_conv (Wave_res_blocks w ! 2))) = 9 \<and>
     dilation_rate (Conv_conv (Res_gate_conv (Wave_res_blocks w ! 2))) = 9"
proof -
  note th = dilation_schedule [of 3 1 2 1 3 4 4 "Some 4" "Some 80" True]
  from th obtain w where w: "WaveNet_init 1 2 1 3 4 4 (Some 4) 3 (Some 80) True = Inr w"
    by auto
  with th have len: "length (Wave_res_blocks w) = nat 1 * nat 3"
    and ilen: "int (length (Wave_res_blocks w)) = 1 * 3"
    and each: "\<forall>b<nat 1. \<forall>n<nat 3.
         dilation_rate (Conv_conv (Res_filter_conv (Wave_res_blocks w ! (b * nat 3 + n)))) = 3 ^ n \<and>
         dilation_rate (Conv_conv (Res_gate_conv (Wave_res_blocks w ! (b * nat 3 + n)))) = 3 ^ n"
    by auto
  from each [rule_format, of 0 2]
  have "dilation_rate (Conv_conv (Res_filter_conv (Wave_res_blocks w ! 2))) = 9 \<and>
         dilation_rate (Conv_conv (Res_gate_conv (Wave_res_blocks w ! 2))) = 9"
    by (simp add: numeral_2_eq_2)
  with w len ilen show ?thesis by simp
qed

lemma blocks_loop_no_layers:
  "L \<le> 0 \<Longrightarrow> blocks_loop R G S k cin c L bs blocks = Inr blocks"
  by (induction bs arbitrary: blocks) (simp_all add: py_range_def)

text \<open>
  C7 (amended): Constructing a Conv with kernel_size <= 0 or dilation <= 0 fails with
  a configuration error (that of the Conv1D layer it creates). Constructing a WaveNet
  with num_blocks <= 0 or num_layers <= 0 does not fail: the loops run no iteration
  and the result is a network without residual blocks.
\<close>

theorem construction_checks:
  "(ksize \<le> 0 \<or> dilation \<le> 0 \<longrightarrow>
      Conv_init in_channels out_channels ksize dilation causal = Inl ConfigurationError) \<and>
   (num_blocks \<le> 0 \<or> num_layers \<le> 0 \<longrightarrow>
      (\<exists>w. WaveNet_init in_channels out_channels num_blocks num_layers residual_channels
              gate_channels skip_channels ksize cin_channels causal = Inr w \<and>
           Wave_res_blocks w = []))"
proof (intro conjI impI)
  assume "ksize \<le> 0 \<or> dilation \<le> 0"
  then show "Conv_init in_channels out_channels ksize dilation causal = Inl ConfigurationError"
    by (rule Conv_init_Inl)
next
  assume "num_blocks \<le> 0 \<or> num_layers \<le> 0"
  then have "blocks_loop residual_channels gate_channels skip_channels ksize cin_channels
      causal num_layers (py_range num_blocks) [] = Inr []"
  proof
    assume "num_blocks \<le> 0"
    then show ?thesis by (simp add: py_range_def)
  next
    assume "num_layers \<le> 0"
    then show ?thesis by (rule blocks_loop_no_layers)
  qed
  then show "\<exists>w. WaveNet_init in_channels out_channels num_blocks num_layers residual_channels
              gate_channels skip_channels ksize cin_channels causal = Inr w \<and>
           Wave_res_blocks w = []"
    by (simp add: WaveNet_init_eq_Inr Conv_init_Inr ZeroConv1d_init_Inr)
qed

theorem construction_checks_witness:
  "(0::int) \<le> 0 \<and> Conv_init 1 1 0 1 True = Inl ConfigurationError \<and>
   (\<exists>w. WaveNet_init 1 2 0 6 256 256 (Some 256) 3 (Some 80) True = Inr w \<and>
        Wave_res_blocks w = [])"
  using construction_checks [where ksize = 0 and dilation = 1 and in_channels = 1
      and out_channels = 1 and causal = True and num_blocks = 0 and num_layers = 6
      and residual_channels = 256 and gate_channels = 256 and skip_channels = "Some 256"
      and cin_channels = "Some 80"]
    construction_checks [where ksize = 3 and dilation = 1 and in_channels = 1
      and out_channels = 2 and causal = True and num_blocks = 0 and num_layers = 6
      and residual_channels = 256 and gate_channels = 256 and skip_channels = "Some 256"
      and cin_channels = "Some 80"]
  by simp

text \<open>
  C7 as stated fails: with num_blocks = 0, and with num_layers = 0, the constructor of
  WaveNet returns a network, the one with no residual blocks.
\<close>

theorem empty_stack_counterexample:
  "WaveNet_init 1 2 0 6 256 256 (Some 256) 3 (Some 80) True = Inr empty_stack \<and>
   WaveNet_init 1 2 1 0 256 256 (Some 256) 3 (Some 80) True = Inr empty_stack"
  by (simp add: WaveNet_init_eq_Inr Conv_init_Inr ZeroConv1d_init_Inr py_range_def
      empty_stack_def)

section \<open>ResBlock: gated activation, residual stream and skip output\<close>

lemma map_tensor_dims [simp]:
  "nbatch (map_tensor f x) = nbatch x"
  "ntime (map_tensor f x) = ntime x"
  "nchan (map_tensor f x) = nchan x"
  "elem (map_tensor f x) b t c = f (elem x b t c)"
  by (simp_all add: map_tensor_def)

lemma bcast_elem_map_tensor [simp]:
  "bcast_elem (map_tensor f x) b t c = f (bcast_elem x b t c)"
  by (simp add: bcast_elem_def)

lemma bidx_in_range: "i < n \<Longrightarrow> bidx n i = i"
  by (auto simp add: bidx_def)

lemma bcast_elem_in_range:
  "b < nbatch x \<Longrightarrow> t < ntime x \<Longrightarrow> c < nchan x \<Longrightarrow> bcast_elem x b t c = elem x b t c"
  by (simp add: bcast_elem_def bidx_in_range)

lemma tf_binop_eq_Inr:
  "tf_binop f x y = Inr z \<longleftrightarrow>
     (\<exists>B T C. bdim (nbatch x) (nbatch y) = Some B \<and> bdim (ntime x) (ntime y) = Some T \<and>
        bdim (nchan x) (nchan y) = Some C \<and>
        z = \<lparr>nbatch = B, ntime = T, nchan = C,
             elem = (\<lambda>b t c. f (bcast_elem x b t c) (bcast_elem y b t c))\<rparr>)"
  by (auto simp add: tf_binop_def split: option.splits)

lemma tf_binop_elem:
  "tf_binop f x y = Inr z \<Longrightarrow> elem z b t c = f (bcast_elem x b t c) (bcast_elem y b t c)"
  by (auto simp add: tf_binop_eq_Inr)

lemma call_layer_eq_Inr:
  "call_layer l p x = Inr y \<longleftrightarrow> (\<exists>l' x'. l = Some l' \<and> x = Some x' \<and> y = Conv1D_call l' p x')"
  by (auto simp add: call_layer_def split: option.splits)

lemma add_conditioning_eq_Inr:
  "add_conditioning cond l p c h = Inr h' \<longleftrightarrow>
     (if cond then \<exists>l' cc. l = Some l' \<and> c = Some cc \<and> tf_add h (Conv1D_call l' p cc) = Inr h'
      else h' = h)"
  by (auto simp add: add_conditioning_def bind_r_eq_Inr call_layer_eq_Inr)

lemma activated_eq_Inr:
  "activated rb p x c = Inr a \<longleftrightarrow>
     (\<exists>h_filter h_gate f g.
        Conv_forward (Res_filter_conv rb) (p_filter_conv p) x = Inr h_filter \<and>
        Conv_forward (Res_gate_conv rb) (p_gate_conv p) x = Inr h_gate \<and>
        add_conditioning (Res_local_conditioning rb) (Res_filter_conv_c rb) (p_filter_conv_c p) c h_filter = Inr f \<and>
        add_conditioning (Res_local_conditioning rb) (Res_gate_conv_c rb) (p_gate_conv_c p) c h_gate = Inr g \<and>
        tf_mul (tf_tanh f) (tf_sigmoid g) = Inr a)"
  by (simp add: activated_def bind_r_eq_Inr)

lemma ResBlock_forward_eq_Inr:
  "ResBlock_forward rb p x c = Inr (ns, sk) \<longleftrightarrow>
     (\<exists>a sum. activated rb p x c = Inr a \<and>
        (if Res_skip rb then \<exists>l. Res_skip_conv rb = Some l \<and> sk = Some (Conv1D_call l (p_skip_conv p) a)
         else sk = None) \<and>
        tf_add x (Conv1D_call (Res_res_conv rb) (p_res_conv p) a) = Inr sum \<and>
        ns = scalar_mul sum (sqrt 0.5))"
  by (auto simp add: ResBlock_forward_def bind_r_eq_Inr Let_def call_layer_eq_Inr)

text \<open>
  C5: In a successful forward call of a ResBlock the gated value is
  tanh(filter) * sigmoid(gate), where filter and gate are the outputs of the filter and
  gate convolutions of the stream, to each of which the output of its own 1x1
  convolution of the conditioning tensor is added exactly when local conditioning is
  on; the new stream is (stream + res_conv(gated)) * sqrt(0.5) with res_conv the 1x1
  convolution to out_channels. (\<open>bcast_elem\<close> is the element itself wherever no axis
  is stretched by broadcasting.)
\<close>

theorem gated_activation_and_residual:
  assumes "ResBlock_init in_channels out_channels skip_channels ksize dilation cin_channels
             local_conditioning causal = Inr rb"
    and "ResBlock_forward rb p s c = Inr (ns, sk)"
  shows "\<exists>h_filter h_gate f g a sum.
     Conv_forward (Res_filter_conv rb) (p_filter_conv p) s = Inr h_filter \<and>
     Conv_forward (Res_gate_conv rb) (p_gate_conv p) s = Inr h_gate \<and>
     (if local_conditioning
      then \<exists>fc gc cc. Res_filter_conv_c rb = Some fc \<and> Res_gate_conv_c rb = Some gc \<and>
             c = Some cc \<and> kernel_size fc = 1 \<and> kernel_size gc = 1 \<and>
             tf_add h_filter (Conv1D_call fc (p_filter_conv_c p) cc) = Inr f \<and>
             tf_add h_gate (Conv1D_call gc (p_gate_conv_c p) cc) = Inr g
      else f = h_filter \<and> g = h_gate) \<and>
     tf_mul (tf_tanh f) (tf_sigmoid g) = Inr a \<and>
     activated rb p s c = Inr a \<and>
     (\<forall>b t ch. elem a b t ch = tanh (bcast_elem f b t ch) * sigmoid (bcast_elem g b t ch)) \<and>
     kernel_size (Res_res_conv rb) = 1 \<and> filters (Res_res_conv rb) = out_channels \<and>
     tf_add s (Conv1D_call (Res_res_conv rb) (p_res_conv p) a) = Inr sum \<and>
     ns = scalar_mul sum (sqrt 0.5) \<and>
     (\<forall>b t ch. elem ns b t ch =
        (bcast_elem s b t ch +
         bcast_elem (Conv1D_call (Res_res_conv rb) (p_res_conv p) a) b t ch) * sqrt 0.5)"
proof -
  from ResBlock_init_eq_Inr_pos [OF assms(1)] have pos: "0 < ksize" "0 < dilation" by simp_all
  from ResBlock_init_Inr [OF pos, of in_channels out_channels skip_channels cin_channels
      local_conditioning causal] assms(1)
  have lc: "Res_local_conditioning rb = local_conditioning"
    and res: "Res_res_conv rb = \<lparr>filters = out_channels, kernel_size = 1, dilation_rate = 1,
          kernel_initializer = he_uniform, bias_initializer = zeros\<rparr>"
    and fcc: "Res_filter_conv_c rb = (if local_conditioning then Some \<lparr>filters = out_channels,
          kernel_size = 1, dilation_rate = 1,
          kernel_initializer = he_uniform, bias_initializer = zeros\<rparr> else None)"
    and gcc: "Res_gate_conv_c rb = (if local_conditioning then Some \<lparr>filters = out_channels,
          kernel_size = 1, dilation_rate = 1,
          kernel_initializer = he_uniform, bias_initializer = zeros\<rparr> else None)"
    by auto
  from assms(2) obtain a sum where a: "activated rb p s c = Inr a"
    and sum: "tf_add s (Conv1D_call (Res_res_conv rb) (p_res_conv p) a) = Inr sum"
    and ns: "ns = scalar_mul sum (sqrt 0.5)"
    by (auto simp add: ResBlock_forward_eq_Inr)
  from a obtain h_filter h_gate f g where
    hf: "Conv_forward (Res_filter_conv rb) (p_filter_conv p) s = Inr h_filter"
    and hg: "Conv_forward (Res_gate_conv rb) (p_gate_conv p) s = Inr h_gate"
    and f: "add_conditioning local_conditioning (Res_filter_conv_c rb) (p_filter_conv_c p) c h_filter = Inr f"
    and g: "add_conditioning local_conditioning (Res_gate_conv_c rb) (p_gate_conv_c p) c h_gate = Inr g"
    and mul: "tf_mul (tf_tanh f) (tf_sigmoid g) = Inr a"
    unfolding activated_eq_Inr lc by blast
  have cond: "if local_conditioning
      then \<exists>fc gc cc. Res_filter_conv_c rb = Some fc \<and> Res_gate_conv_c rb = Some gc \<and>
             c = Some cc \<and> kernel_size fc = 1 \<and> kernel_size gc = 1 \<and>
             tf_add h_filter (Conv1D_call fc (p_filter_conv_c p) cc) = Inr f \<and>
             tf_add h_gate (Conv1D_call gc (p_gate_conv_c p) cc) = Inr g
      else f = h_filter \<and> g = h_gate"
    using f g by (auto simp add: add_conditioning_eq_Inr fcc gcc)
  have ea: "\<forall>b t ch. elem a b t ch = tanh (bcast_elem f b t ch) * sigmoid (bcast_elem g b t ch)"
    using tf_binop_elem [OF mul [unfolded tf_mul_def]]
    by (simp add: tf_tanh_def tf_sigmoid_def)
  have ens: "\<forall>b t ch. elem ns b t ch =
        (bcast_elem s b t ch +
         bcast_elem (Conv1D_call (Res_res_conv rb) (p_res_conv p) a) b t ch) * sqrt 0.5"
    using tf_binop_elem [OF sum [unfolded tf_add_def]]
    by (simp add: ns scalar_mul_def)
  have r1: "kernel_size (Res_res_conv rb) = 1" "filters (Res_res_conv rb) = out_channels"
    by (simp_all add: res)
  show ?thesis
    using hf hg cond mul a ea r1 sum ns ens by blast
qed


lemma Conv_forward_shape:
  assumes "Conv_init i n k d c = Inr cv"
  shows "\<exists>y. Conv_forward cv p x = Inr y \<and> nbatch y = nbatch x \<and> nchan y = n \<and>
           ntime y = (if c \<or> even (d * (k - 1)) then ntime x else ntime x - 1)"
proof -
  define e where "e = d * (k - 1)"
  define P where "P = (if c then e else e div 2)"
  from assms have k: "0 < k" and d: "0 < d"
    and cv: "cv = \<lparr>Conv_causal = c, Conv_padding = P,
           Conv_conv = \<lparr>filters = n, kernel_size = k, dilation_rate = d,
                        kernel_initializer = he_uniform, bias_initializer = zeros\<rparr>\<rparr>"
    by (simp_all add: Conv_init_eq_Inr P_def e_def)
  have e: "0 \<le> e" using k d by (simp add: e_def)
  then have P: "0 \<le> P" by (simp add: P_def)
  have ext: "nat (dilation_rate (Conv_conv cv)) * (nat (kernel_size (Conv_conv cv)) - Suc 0) = nat e"
    using nat_extent [OF k d] by (simp add: cv e_def)
  define out where "out = Conv1D_call (Conv_conv cv) p
     \<lparr>nbatch = nbatch x, ntime = nat P + ntime x + nat P, nchan = nchan x,
          elem = (\<lambda>b t c. if nat P \<le> t \<and> t < nat P + ntime x
                            then elem x b (t - nat P) c else 0)\<rparr>"
  have od: "nbatch out = nbatch x" "nchan out = n" "ntime out = nat P + ntime x + nat P - nat e"
    by (simp_all add: out_def ext) (simp add: cv)
  define y where "y = (if c \<and> P \<noteq> 0 then slice_time out (- P) else out)"
  have fw: "Conv_forward cv p x = Inr y"
    using P by (simp add: Conv_forward_def cv tf_pad_Inr Let_def out_def y_def)
  have yd: "nbatch y = nbatch x" "nchan y = n"
    by (simp_all add: y_def od)
  have "ntime y = (if c \<or> even e then ntime x else ntime x - 1)"
  proof (cases c)
    case True
    then have "P = e" by (simp add: P_def)
    with True e show ?thesis by (simp add: y_def od slice_stop_neg)
  next
    case False
    then have Ph: "nat P = nat e div 2" using e by (simp add: P_def nat_div_distrib)
    show ?thesis
    proof (cases "even e")
      case True
      then have "even (nat e)" using e by (simp add: even_nat_iff)
      then have "2 * (nat e div 2) = nat e" by simp
      then have "nat e div 2 + ntime x + nat e div 2 - nat e = ntime x" by linarith
      with True \<open>\<not> c\<close> show ?thesis by (simp add: y_def od Ph)
    next
      case False
      then have "odd (nat e)" using e by (simp add: even_nat_iff)
      then have "2 * (nat e div 2) + 1 = nat e" by simp
      then have "nat e div 2 + ntime x + nat e div 2 - nat e = ntime x - 1" by linarith
      with False \<open>\<not> c\<close> show ?thesis by (simp add: y_def od Ph)
    qed
  qed
  with fw yd show ?thesis unfolding e_def by blast
qed

lemma bdim_absorb: "bdim m n = Some r \<Longrightarrow> bdim m r = Some r"
  by (auto simp add: bdim_def split: if_splits)

lemma bdim_eq_Some_iff: "bdim m n \<noteq> None \<longleftrightarrow> m = n \<or> m = 1 \<or> n = 1"
  by (auto simp add: bdim_def)

lemma tf_binop_dims:
  assumes "tf_binop f x y = Inr z"
  shows "bdim (nbatch x) (nbatch y) = Some (nbatch z)"
    "bdim (ntime x) (ntime y) = Some (ntime z)"
    "bdim (nchan x) (nchan y) = Some (nchan z)"
  using assms by (auto simp add: tf_binop_eq_Inr)

lemma tf_binop_succeeds:
  "bdim (nbatch x) (nbatch y) = Some B \<Longrightarrow> bdim (ntime x) (ntime y) = Some T \<Longrightarrow>
   bdim (nchan x) (nchan y) = Some C \<Longrightarrow>
   \<exists>z. tf_binop f x y = Inr z \<and> nbatch z = B \<and> ntime z = T \<and> nchan z = C"
  by (simp add: tf_binop_eq_Inr)


lemma activated_shape:
  assumes init: "ResBlock_init i n sk k d cin lc c = Inr rb"
    and a: "activated rb p s cnd = Inr a"
  shows "nchan a = n \<and>
    (if lc
     then \<exists>cc. cnd = Some cc \<and> bdim (nbatch s) (nbatch cc) = Some (nbatch a) \<and>
            bdim (if c \<or> even (d * (k - 1)) then ntime s else ntime s - 1) (ntime cc)
              = Some (ntime a)
     else nbatch a = nbatch s \<and>
          ntime a = (if c \<or> even (d * (k - 1)) then ntime s else ntime s - 1))"
proof -
  define T' where "T' = (if c \<or> even (d * (k - 1)) then ntime s else ntime s - 1)"
  from ResBlock_init_eq_Inr_pos [OF init] have pos: "0 < k" "0 < d" by simp_all
  from ResBlock_init_Inr [OF pos, of i n sk cin lc c] init
  have lc: "Res_local_conditioning rb = lc"
    and fci: "Conv_init i n k d c = Inr (Res_filter_conv rb)"
    and gci: "Conv_init i n k d c = Inr (Res_gate_conv rb)"
    and fcc: "Res_filter_conv_c rb = (if lc then Some \<lparr>filters = n,
          kernel_size = 1, dilation_rate = 1,
          kernel_initializer = he_uniform, bias_initializer = zeros\<rparr> else None)"
    and gcc: "Res_gate_conv_c rb = (if lc then Some \<lparr>filters = n,
          kernel_size = 1, dilation_rate = 1,
          kernel_initializer = he_uniform, bias_initializer = zeros\<rparr> else None)"
    by auto
  from a obtain h_filter h_gate f g where
    hf: "Conv_forward (Res_filter_conv rb) (p_filter_conv p) s = Inr h_filter"
    and hg: "Conv_forward (Res_gate_conv rb) (p_gate_conv p) s = Inr h_gate"
    and f: "add_conditioning lc (Res_filter_conv_c rb) (p_filter_conv_c p) cnd h_filter = Inr f"
    and g: "add_conditioning lc (Res_gate_conv_c rb) (p_gate_conv_c p) cnd h_gate = Inr g"
    and mul: "tf_mul (tf_tanh f) (tf_sigmoid g) = Inr a"
    unfolding activated_eq_Inr lc by blast
  from Conv_forward_shape [OF fci, of "p_filter_conv p" s] hf
  have hfd: "nbatch h_filter = nbatch s" "nchan h_filter = n" "ntime h_filter = T'"
    by (auto simp add: T'_def)
  from Conv_forward_shape [OF gci, of "p_gate_conv p" s] hg
  have hgd: "nbatch h_gate = nbatch s" "nchan h_gate = n" "ntime h_gate = T'"
    by (auto simp add: T'_def)
  note md = tf_binop_dims [OF mul [unfolded tf_mul_def tf_tanh_def tf_sigmoid_def]]
  show ?thesis
  proof (cases lc)
    case False
    with f g have "f = h_filter" "g = h_gate" by (simp_all add: add_conditioning_eq_Inr)
    with md hfd hgd False show ?thesis
      by (simp add: bdim_same T'_def)
  next
    case True
    with f g fcc gcc obtain cc where cc: "cnd = Some cc"
      and fa: "tf_add h_filter (Conv1D_call \<lparr>filters = n,
          kernel_size = 1, dilation_rate = 1,
          kernel_initializer = he_uniform, bias_initializer = zeros\<rparr> (p_filter_conv_c p) cc) = Inr f"
      and ga: "tf_add h_gate (Conv1D_call \<lparr>filters = n,
          kernel_size = 1, dilation_rate = 1,
          kernel_initializer = he_uniform, bias_initializer = zeros\<rparr> (p_gate_conv_c p) cc) = Inr g"
      by (auto simp add: add_conditioning_eq_Inr)
    note fd = tf_binop_dims [OF fa [unfolded tf_add_def]]
    note gd = tf_binop_dims [OF ga [unfolded tf_add_def]]
    from fd gd have eq: "nbatch g = nbatch f" "ntime g = ntime f" "nchan g = nchan f"
      by (simp_all add: hfd hgd)
    from fd have "nchan f = n" by (simp add: hfd bdim_same)
    with md eq have "nbatch a = nbatch f" "ntime a = ntime f" "nchan a = n"
      by (simp_all add: bdim_same)
    with fd cc True show ?thesis
      by (simp add: hfd T'_def)
  qed
qed

lemma activated_succeeds:
  assumes init: "ResBlock_init i n sk k d cin lc c = Inr rb"
    and cond: "lc \<longrightarrow> (\<exists>cc. cnd = Some cc \<and> bdim (nbatch s) (nbatch cc) \<noteq> None \<and>
            bdim (if c \<or> even (d * (k - 1)) then ntime s else ntime s - 1) (ntime cc) \<noteq> None)"
  shows "\<exists>a. activated rb p s cnd = Inr a"
proof -
  define T' where "T' = (if c \<or> even (d * (k - 1)) then ntime s else ntime s - 1)"
  from ResBlock_init_eq_Inr_pos [OF init] have pos: "0 < k" "0 < d" by simp_all
  from ResBlock_init_Inr [OF pos, of i n sk cin lc c] init
  have lc: "Res_local_conditioning rb = lc"
    and fci: "Conv_init i n k d c = Inr (Res_filter_conv rb)"
    and gci: "Conv_init i n k d c = Inr (Res_gate_conv rb)"
    and fcc: "Res_filter_conv_c rb = (if lc then Some \<lparr>filters = n,
          kernel_size = 1, dilation_rate = 1,
          kernel_initializer = he_uniform, bias_initializer = zeros\<rparr> else None)"
    and gcc: "Res_gate_conv_c rb = (if lc then Some \<lparr>filters = n,
          kernel_size = 1, dilation_rate = 1,
          kernel_initializer = he_uniform, bias_initializer = zeros\<rparr> else None)"
    by auto
  from Conv_forward_shape [OF fci, of "p_filter_conv p" s] obtain h_filter where
    hf: "Conv_forward (Res_filter_conv rb) (p_filter_conv p) s = Inr h_filter"
    and hfd: "nbatch h_filter = nbatch s" "nchan h_filter = n" "ntime h_filter = T'"
    by (auto simp add: T'_def)
  from Conv_forward_shape [OF gci, of "p_gate_conv p" s] obtain h_gate where
    hg: "Conv_forward (Res_gate_conv rb) (p_gate_conv p) s = Inr h_gate"
    and hgd: "nbatch h_gate = nbatch s" "nchan h_gate = n" "ntime h_gate = T'"
    by (auto simp add: T'_def)
  have "\<exists>f g. add_conditioning lc (Res_filter_conv_c rb) (p_filter_conv_c p) cnd h_filter = Inr f \<and>
     add_conditioning lc (Res_gate_conv_c rb) (p_gate_conv_c p) cnd h_gate = Inr g \<and>
     nbatch g = nbatch f \<and> ntime g = ntime f \<and> nchan g = nchan f"
  proof (cases lc)
    case False
    then show ?thesis by (simp add: add_conditioning_eq_Inr hfd hgd)
  next
    case True
    with cond obtain cc B T where cc: "cnd = Some cc"
      and B: "bdim (nbatch s) (nbatch cc) = Some B" and T: "bdim T' (ntime cc) = Some T"
      by (auto simp add: T'_def)
    let ?l = "\<lparr>filters = n, kernel_size = 1, dilation_rate = 1,
          kernel_initializer = he_uniform, bias_initializer = zeros\<rparr>"
    obtain f where f: "tf_binop (+) h_filter (Conv1D_call ?l (p_filter_conv_c p) cc) = Inr f"
      "nbatch f = B" "ntime f = T" "nchan f = n"
      using tf_binop_succeeds [of h_filter "Conv1D_call ?l (p_filter_conv_c p) cc" B T n "(+)"]
      by (auto simp add: hfd B T bdim_same)
    obtain g where g: "tf_binop (+) h_gate (Conv1D_call ?l (p_gate_conv_c p) cc) = Inr g"
      "nbatch g = B" "ntime g = T" "nchan g = n"
      using tf_binop_succeeds [of h_gate "Conv1D_call ?l (p_gate_conv_c p) cc" B T n "(+)"]
      by (auto simp add: hgd B T bdim_same)
    from f g True cc show ?thesis
      by (simp add: add_conditioning_eq_Inr fcc gcc tf_add_def)
  qed
  then obtain f g where fg: "add_conditioning lc (Res_filter_conv_c rb) (p_filter_conv_c p) cnd h_filter = Inr f"
     "add_conditioning lc (Res_gate_conv_c rb) (p_gate_conv_c p) cnd h_gate = Inr g"
     "nbatch g = nbatch f" "ntime g = ntime f" "nchan g = nchan f"
    by blast
  obtain a where "tf_mul (tf_tanh f) (tf_sigmoid g) = Inr a"
    using tf_binop_succeeds [of "tf_tanh f" "tf_sigmoid g" "nbatch f" "ntime f" "nchan f" "(*)"]
    by (auto simp add: fg tf_tanh_def tf_sigmoid_def bdim_same tf_mul_def)
  with hf hg fg(1,2) show ?thesis
    unfolding activated_eq_Inr lc by blast
qed


lemma ResBlock_forward_shape:
  assumes init: "ResBlock_init i n sk k d cin lc c = Inr rb"
    and fw: "ResBlock_forward rb p s cnd = Inr (ns, skp)"
  shows "\<exists>a. activated rb p s cnd = Inr a \<and>
     bdim (nbatch s) (nbatch a) = Some (nbatch ns) \<and>
     bdim (ntime s) (ntime a) = Some (ntime ns) \<and>
     bdim (nchan s) n = Some (nchan ns) \<and>
     skp = map_option (\<lambda>m. Conv1D_call \<lparr>filters = m, kernel_size = 1, dilation_rate = 1,
          kernel_initializer = he_uniform, bias_initializer = zeros\<rparr> (p_skip_conv p) a) sk"
proof -
  from ResBlock_init_eq_Inr_pos [OF init] have pos: "0 < k" "0 < d" by simp_all
  from ResBlock_init_Inr [OF pos, of i n sk cin lc c] init
  have res: "Res_res_conv rb = \<lparr>filters = n, kernel_size = 1, dilation_rate = 1,
          kernel_initializer = he_uniform, bias_initializer = zeros\<rparr>"
    and skf: "Res_skip rb = (sk \<noteq> None)"
    and skc: "Res_skip_conv rb = map_option (\<lambda>m. \<lparr>filters = m, kernel_size = 1, dilation_rate = 1,
          kernel_initializer = he_uniform, bias_initializer = zeros\<rparr>) sk"
    by auto
  from fw obtain a sum where a: "activated rb p s cnd = Inr a"
    and sk: "if Res_skip rb then \<exists>l. Res_skip_conv rb = Some l \<and> skp = Some (Conv1D_call l (p_skip_conv p) a)
         else skp = None"
    and sum: "tf_add s (Conv1D_call (Res_res_conv rb) (p_res_conv p) a) = Inr sum"
    and ns: "ns = scalar_mul sum (sqrt 0.5)"
    unfolding ResBlock_forward_eq_Inr by blast
  note sd = tf_binop_dims [OF sum [unfolded tf_add_def]]
  have "skp = map_option (\<lambda>m. Conv1D_call \<lparr>filters = m, kernel_size = 1, dilation_rate = 1,
          kernel_initializer = he_uniform, bias_initializer = zeros\<rparr> (p_skip_conv p) a) sk"
    using sk by (cases sk) (auto simp add: skf skc)
  with a sd show ?thesis
    by (simp add: ns scalar_mul_def res)
qed

lemma ResBlock_forward_succeeds:
  assumes init: "ResBlock_init i n sk k d cin lc c = Inr rb"
    and len: "c \<or> even (d * (k - 1))"
    and cond: "lc \<longrightarrow> (\<exists>cc. cnd = Some cc \<and> bdim (nbatch s) (nbatch cc) \<noteq> None \<and>
            bdim (ntime s) (ntime cc) \<noteq> None)"
    and wid: "bdim (nchan s) n \<noteq> None"
  shows "\<exists>ns skp. ResBlock_forward rb p s cnd = Inr (ns, skp)"
proof -
  from ResBlock_init_eq_Inr_pos [OF init] have pos: "0 < k" "0 < d" by simp_all
  from ResBlock_init_Inr [OF pos, of i n sk cin lc c] init
  have res: "Res_res_conv rb = \<lparr>filters = n, kernel_size = 1, dilation_rate = 1,
          kernel_initializer = he_uniform, bias_initializer = zeros\<rparr>"
    and skf: "Res_skip rb = (sk \<noteq> None)"
    and skc: "Res_skip_conv rb = map_option (\<lambda>m. \<lparr>filters = m, kernel_size = 1, dilation_rate = 1,
          kernel_initializer = he_uniform, bias_initializer = zeros\<rparr>) sk"
    by auto
  from cond len have "lc \<longrightarrow> (\<exists>cc. cnd = Some cc \<and> bdim (nbatch s) (nbatch cc) \<noteq> None \<and>
            bdim (if c \<or> even (d * (k - 1)) then ntime s else ntime s - 1) (ntime cc) \<noteq> None)"
    by simp
  from activated_succeeds [OF init this] obtain a where a: "activated rb p s cnd = Inr a"
    by blast
  from activated_shape [OF init a] len
  have ad: "nchan a = n" "bdim (nbatch s) (nbatch a) = Some (nbatch a)"
    "bdim (ntime s) (ntime a) = Some (ntime a)"
    by (auto simp add: bdim_same bdim_absorb split: if_splits)
  from wid obtain C where C: "bdim (nchan s) n = Some C" by auto
  obtain sum where sum: "tf_add s (Conv1D_call (Res_res_conv rb) (p_res_conv p) a) = Inr sum"
    using tf_binop_succeeds [of s "Conv1D_call (Res_res_conv rb) (p_res_conv p) a"
        "nbatch a" "ntime a" C "(+)"]
    by (auto simp add: ad C res tf_add_def)
  have "\<exists>skp. if Res_skip rb
       then \<exists>l. Res_skip_conv rb = Some l \<and> skp = Some (Conv1D_call l (p_skip_conv p) a)
       else skp = None"
    by (cases sk) (simp_all add: skf skc)
  with a sum show ?thesis
    unfolding ResBlock_forward_eq_Inr by blast
qed



text \<open>
  C10 (amended): Constructing a ResBlock succeeds whatever the two widths are. A forward
  call succeeds only if out_channels equals the channel width of the stream or one of
  the two is 1, because the addition of the stream and the residual projection
  broadcasts; for a block whose convolutions keep the time-length and a conditioning
  tensor with the batch and time dimensions of the stream, the call succeeds exactly
  in that case.
\<close>

theorem residual_width_constraint:
  "(0 < ksize \<and> 0 < dilation \<longrightarrow>
      (\<exists>rb. ResBlock_init in_channels out_channels skip_channels ksize dilation cin_channels
               local_conditioning causal = Inr rb)) \<and>
   (ResBlock_init in_channels out_channels skip_channels ksize dilation cin_channels
        local_conditioning causal = Inr rb \<longrightarrow>
      (ResBlock_forward rb p s c = Inr (ns, skip) \<longrightarrow>
         (nchan s = out_channels \<or> nchan s = 1 \<or> out_channels = 1) \<and>
         nchan ns = (if nchan s = 1 then out_channels else nchan s)) \<and>
      ((causal \<or> even (dilation * (ksize - 1))) \<and>
       (local_conditioning \<longrightarrow>
          (\<exists>cc. c = Some cc \<and> nbatch cc = nbatch s \<and> ntime cc = ntime s)) \<longrightarrow>
         ((\<exists>ns skip. ResBlock_forward rb p s c = Inr (ns, skip)) \<longleftrightarrow>
            nchan s = out_channels \<or> nchan s = 1 \<or> out_channels = 1)))"
proof (intro conjI impI)
  assume "0 < ksize \<and> 0 < dilation"
  then show "\<exists>rb. ResBlock_init in_channels out_channels skip_channels ksize dilation cin_channels
               local_conditioning causal = Inr rb"
    using ResBlock_init_Inr [of ksize dilation in_channels out_channels skip_channels cin_channels
        local_conditioning causal] by blast
next
  assume init: "ResBlock_init in_channels out_channels skip_channels ksize dilation cin_channels
        local_conditioning causal = Inr rb"
  {
    assume fw: "ResBlock_forward rb p s c = Inr (ns, skip)"
    from ResBlock_forward_shape [OF init fw]
    have w: "bdim (nchan s) out_channels = Some (nchan ns)" by blast
    then show "nchan s = out_channels \<or> nchan s = 1 \<or> out_channels = 1"
      using bdim_eq_Some_iff [of "nchan s" out_channels] by simp
    from w show "nchan ns = (if nchan s = 1 then out_channels else nchan s)"
      by (auto simp add: bdim_def split: if_splits)
  }
  assume al: "(causal \<or> even (dilation * (ksize - 1))) \<and>
       (local_conditioning \<longrightarrow>
          (\<exists>cc. c = Some cc \<and> nbatch cc = nbatch s \<and> ntime cc = ntime s))"
  show "(\<exists>ns skip. ResBlock_forward rb p s c = Inr (ns, skip)) \<longleftrightarrow>
            nchan s = out_channels \<or> nchan s = 1 \<or> out_channels = 1"
  proof
    assume "\<exists>ns skip. ResBlock_forward rb p s c = Inr (ns, skip)"
    then obtain ns' skip' where "ResBlock_forward rb p s c = Inr (ns', skip')" by blast
    from ResBlock_forward_shape [OF init this]
    have "bdim (nchan s) out_channels \<noteq> None" by auto
    then show "nchan s = out_channels \<or> nchan s = 1 \<or> out_channels = 1"
      by (simp only: bdim_eq_Some_iff)
  next
    assume "nchan s = out_channels \<or> nchan s = 1 \<or> out_channels = 1"
    then have wid: "bdim (nchan s) out_channels \<noteq> None" by (simp only: bdim_eq_Some_iff)
    from al have len: "causal \<or> even (dilation * (ksize - 1))" by simp
    from al have "local_conditioning \<longrightarrow> (\<exists>cc. c = Some cc \<and> bdim (nbatch s) (nbatch cc) \<noteq> None \<and>
            bdim (ntime s) (ntime cc) \<noteq> None)"
      by (auto simp add: bdim_same)
    from ResBlock_forward_succeeds [OF init len this wid]
    show "\<exists>ns skip. ResBlock_forward rb p s c = Inr (ns, skip)" .
  qed
qed


lemma gated_block_init:
  "ResBlock_init 1 1 (Some 1) 3 1 (Some 1) True True = Inr gated_block"
  by (simp add: ResBlock_init_def Conv_init_Inr optional_layer_def gated_block_def Let_def)

lemma gated_block_runs:
  "\<exists>ns sk. ResBlock_forward gated_block unit_block_params ramp (Some ramp) = Inr (ns, sk)"
  by (rule ResBlock_forward_succeeds [OF gated_block_init])
    (simp_all add: bdim_same bdim_one_right)

theorem gated_activation_and_residual_witness:
  "ResBlock_init 1 1 (Some 1) 3 1 (Some 1) True True = Inr gated_block \<and>
   (\<exists>ns sk a. ResBlock_forward gated_block unit_block_params ramp (Some ramp) = Inr (ns, sk) \<and>
      activated gated_block unit_block_params ramp (Some ramp) = Inr a \<and>
      (\<forall>b t ch. elem ns b t ch =
        (bcast_elem ramp b t ch +
         bcast_elem (Conv1D_call (Res_res_conv gated_block) (p_res_conv unit_block_params) a) b t ch)
          * sqrt 0.5))"
proof -
  from gated_block_runs obtain ns sk where
    fw: "ResBlock_forward gated_block unit_block_params ramp (Some ramp) = Inr (ns, sk)"
    by blast
  from gated_activation_and_residual [OF gated_block_init fw] fw gated_block_init
  show ?thesis by blast
qed


theorem residual_width_constraint_witness:
  "(\<exists>rb. ResBlock_init 1 2 None 3 1 None False True = Inr rb) \<and>
   ResBlock_init 1 1 (Some 1) 3 1 (Some 1) True True = Inr gated_block \<and>
   (\<exists>ns skip. ResBlock_forward gated_block unit_block_params ramp (Some ramp) = Inr (ns, skip) \<and>
      nchan ns = 1)"
proof -
  note th = residual_width_constraint [where rb = gated_block and p = unit_block_params
      and s = ramp and c = "Some ramp" and skip_channels = "Some 1"
      and in_channels = 1 and out_channels = 1 and ksize = 3 and dilation = 1
      and cin_channels = "Some 1" and local_conditioning = True and causal = True]
  from th gated_block_init have "\<exists>ns skip. ResBlock_forward gated_block unit_block_params ramp (Some ramp) = Inr (ns, skip)"
    by (simp add: ramp_def)
  then obtain ns skip where
    fw: "ResBlock_forward gated_block unit_block_params ramp (Some ramp) = Inr (ns, skip)" by blast
  from th [of ns skip] gated_block_init fw have "nchan ns = 1" by (simp add: ramp_def)
  moreover have "\<exists>rb. ResBlock_init 1 2 None 3 1 None False True = Inr rb"
    using residual_width_constraint [where ksize = 3 and dilation = 1 and in_channels = 1
        and out_channels = 2 and skip_channels = None and cin_channels = None
        and local_conditioning = False and causal = True]
    by simp
  ultimately show ?thesis using gated_block_init fw by blast
qed

text \<open>
  C10 as stated fails: a block with out_channels = 2 accepts a stream with one channel
  and returns a stream with two.
\<close>

theorem widening_block_counterexample:
  "ResBlock_init 1 2 None 3 1 None False True = Inr widening_block \<and>
   map_sum id (\<lambda>r. (nbatch (fst r), ntime (fst r), nchan (fst r)))
     (ResBlock_forward widening_block unit_block_params ramp None) = Inr (1, 4, 2) \<and>
   nchan ramp = 1"
  by (simp add: ResBlock_init_def Conv_init_Inr optional_layer_def widening_block_def Let_def
      ResBlock_forward_def activated_def add_conditioning_def Conv_forward_def tf_pad_def
      tf_mul_def tf_add_def tf_binop_def bdim_def tf_tanh_def tf_sigmoid_def scalar_mul_def
      unit_block_params_def ramp_def slice_stop_def)

section \<open>Causality\<close>

lemma agreeI:
  assumes "nbatch x = nbatch x'" "ntime x = ntime x'" "nchan x = nchan x'"
    and "\<And>b u c. b < nbatch x \<Longrightarrow> u < ntime x \<Longrightarrow> c < nchan x \<Longrightarrow> u \<le> t
           \<Longrightarrow> elem x b u c = elem x' b u c"
  shows "agree t x x'"
  using assms by (simp add: agree_def same_shape_def)

lemma agree_dims:
  "agree t x x' \<Longrightarrow> nbatch x' = nbatch x \<and> ntime x' = ntime x \<and> nchan x' = nchan x"
  by (simp add: agree_def same_shape_def)

lemma agree_elem:
  "agree t x x' \<Longrightarrow> b < nbatch x \<Longrightarrow> u < ntime x \<Longrightarrow> c < nchan x \<Longrightarrow> u \<le> t
     \<Longrightarrow> elem x b u c = elem x' b u c"
  by (simp add: agree_def)

lemma agree_refl: "agree t x x"
  by (simp add: agree_def same_shape_def)

lemma rel_bind_r:
  assumes "rel_sum (=) R r r'"
    and "\<And>v v'. R v v' \<Longrightarrow> rel_sum (=) S (f v) (f' v')"
  shows "rel_sum (=) S (bind_r r f) (bind_r r' f')"
  using assms by (cases r; cases r') simp_all

lemma agree_tf_pad:
  assumes "agree t x x'"
  shows "rel_sum (=) (agree (t + nat P)) (tf_pad x P P) (tf_pad x' P P)"
proof (cases "P < 0")
  case True
  then show ?thesis by (simp add: tf_pad_def)
next
  case False
  note d = agree_dims [OF assms]
  have "agree (t + nat P)
      \<lparr>nbatch = nbatch x, ntime = nat P + ntime x + nat P, nchan = nchan x,
          elem = (\<lambda>b t c. if nat P \<le> t \<and> t < nat P + ntime x
                            then elem x b (t - nat P) c else 0)\<rparr>
      \<lparr>nbatch = nbatch x', ntime = nat P + ntime x' + nat P, nchan = nchan x',
          elem = (\<lambda>b t c. if nat P \<le> t \<and> t < nat P + ntime x'
                            then elem x' b (t - nat P) c else 0)\<rparr>"
  proof (rule agreeI)
    fix b u c
    assume "b < nbatch \<lparr>nbatch = nbatch x, ntime = nat P + ntime x + nat P, nchan = nchan x,
          elem = (\<lambda>b t c. if nat P \<le> t \<and> t < nat P + ntime x
                            then elem x b (t - nat P) c else 0)\<rparr>"
      and "c < nchan \<lparr>nbatch = nbatch x, ntime = nat P + ntime x + nat P, nchan = nchan x,
          elem = (\<lambda>b t c. if nat P \<le> t \<and> t < nat P + ntime x
                            then elem x b (t - nat P) c else 0)\<rparr>"
      and ut: "u \<le> t + nat P"
    then have b: "b < nbatch x" and c: "c < nchan x" by simp_all
    have "elem x b (u - nat P) c = elem x' b (u - nat P) c"
      if "nat P \<le> u" "u < nat P + ntime x"
    proof (rule agree_elem [OF assms b _ c])
      from that show "u - nat P < ntime x" by linarith
      from that ut show "u - nat P \<le> t" by linarith
    qed
    then show "elem \<lparr>nbatch = nbatch x, ntime = nat P + ntime x + nat P, nchan = nchan x,
          elem = (\<lambda>b t c. if nat P \<le> t \<and> t < nat P + ntime x
                            then elem x b (t - nat P) c else 0)\<rparr> b u c =
       elem \<lparr>nbatch = nbatch x', ntime = nat P + ntime x' + nat P, nchan = nchan x',
          elem = (\<lambda>b t c. if nat P \<le> t \<and> t < nat P + ntime x'
                            then elem x' b (t - nat P) c else 0)\<rparr> b u c"
      by (simp add: d)
  qed (simp_all add: d)
  with False show ?thesis by (simp add: tf_pad_def)
qed

lemma agree_Conv1D_call:
  assumes "agree (t + nat (dilation_rate l) * (nat (kernel_size l) - 1)) q q'"
  shows "agree t (Conv1D_call l p q) (Conv1D_call l p q')"
proof (rule agreeI)
  note d = agree_dims [OF assms]
  define e where "e = nat (dilation_rate l) * (nat (kernel_size l) - 1)"
  show "nbatch (Conv1D_call l p q) = nbatch (Conv1D_call l p q')"
    "ntime (Conv1D_call l p q) = ntime (Conv1D_call l p q')"
    "nchan (Conv1D_call l p q) = nchan (Conv1D_call l p q')"
    by (simp_all add: d)
  fix b u c
  assume "b < nbatch (Conv1D_call l p q)" and "u < ntime (Conv1D_call l p q)" and ut: "u \<le> t"
  then have b: "b < nbatch q" and u: "u + e < ntime q"
    by (simp_all add: e_def)
  have tap: "elem q b (u + j * nat (dilation_rate l)) i = elem q' b (u + j * nat (dilation_rate l)) i"
    if "j < nat (kernel_size l)" "i < nchan q" for j i
  proof (rule agree_elem [OF assms b _ that(2)])
    from that(1) have "j \<le> nat (kernel_size l) - 1" by simp
    then have "j * nat (dilation_rate l) \<le> (nat (kernel_size l) - 1) * nat (dilation_rate l)"
      by (rule mult_le_mono1)
    then have je: "j * nat (dilation_rate l) \<le> e" by (simp add: e_def mult.commute)
    with u show "u + j * nat (dilation_rate l) < ntime q" by linarith
    from je ut show "u + j * nat (dilation_rate l)
        \<le> t + nat (dilation_rate l) * (nat (kernel_size l) - 1)"
      unfolding e_def by linarith
  qed
  have "(\<Sum>j<nat (kernel_size l). \<Sum>i<nchan q.
            kernel p j i c * elem q b (u + j * nat (dilation_rate l)) i) =
        (\<Sum>j<nat (kernel_size l). \<Sum>i<nchan q.
            kernel p j i c * elem q' b (u + j * nat (dilation_rate l)) i)"
    by (intro sum.cong refl) (simp add: tap)
  then show "elem (Conv1D_call l p q) b u c = elem (Conv1D_call l p q') b u c"
    by (simp add: Conv1D_call_def d)
qed

lemma slice_stop_le: "slice_stop e n \<le> n"
  by (auto simp add: slice_stop_def max_def)

lemma agree_slice_time:
  assumes "agree t x x'"
  shows "agree t (slice_time x e) (slice_time x' e)"
proof (rule agreeI)
  note d = agree_dims [OF assms]
  show "nbatch (slice_time x e) = nbatch (slice_time x' e)"
    "ntime (slice_time x e) = ntime (slice_time x' e)"
    "nchan (slice_time x e) = nchan (slice_time x' e)"
    by (simp_all add: d)
  fix b u c
  assume "b < nbatch (slice_time x e)" "u < ntime (slice_time x e)"
    "c < nchan (slice_time x e)" "u \<le> t"
  moreover have "slice_stop e (ntime x) \<le> ntime x" by (rule slice_stop_le)
  ultimately show "elem (slice_time x e) b u c = elem (slice_time x' e) b u c"
    using agree_elem [OF assms, of b u c] by simp
qed

lemma agree_map_tensor:
  assumes "agree t x x'"
  shows "agree t (map_tensor f x) (map_tensor f x')"
proof (rule agreeI)
  note d = agree_dims [OF assms]
  show "nbatch (map_tensor f x) = nbatch (map_tensor f x')"
    "ntime (map_tensor f x) = ntime (map_tensor f x')"
    "nchan (map_tensor f x) = nchan (map_tensor f x')"
    by (simp_all add: d)
  fix b u c
  assume "b < nbatch (map_tensor f x)" "u < ntime (map_tensor f x)"
    "c < nchan (map_tensor f x)" "u \<le> t"
  then show "elem (map_tensor f x) b u c = elem (map_tensor f x') b u c"
    using agree_elem [OF assms, of b u c] by simp
qed

lemma bidx_less: "bdim m n = Some r \<Longrightarrow> i < r \<Longrightarrow> bidx m i < m \<and> bidx n i < n"
  by (auto simp add: bdim_def bidx_def split: if_splits)

lemma bidx_le: "bidx n i \<le> i"
  by (simp add: bidx_def)

lemma agree_bcast_elem:
  assumes a: "agree t x x'"
    and b: "bidx (nbatch x) b < nbatch x" and u: "bidx (ntime x) u < ntime x"
    and c: "bidx (nchan x) c < nchan x" and ut: "u \<le> t"
  shows "bcast_elem x b u c = bcast_elem x' b u c"
proof -
  have "bidx (ntime x) u \<le> t" using bidx_le [of "ntime x" u] ut by linarith
  from agree_elem [OF a b u c this] show ?thesis
    by (simp add: bcast_elem_def agree_dims [OF a])
qed

lemma agree_tf_binop:
  assumes x: "agree t x x'" and y: "agree t y y'"
  shows "rel_sum (=) (agree t) (tf_binop f x y) (tf_binop f x' y')"
proof -
  note dx = agree_dims [OF x] and dy = agree_dims [OF y]
  show ?thesis
  proof (cases "tf_binop f x y")
    case (Inl e)
    then show ?thesis
      by (auto simp add: tf_binop_def dx dy split: option.splits)
  next
    case (Inr z)
    then obtain B T C where B: "bdim (nbatch x) (nbatch y) = Some B"
      and T: "bdim (ntime x) (ntime y) = Some T" and C: "bdim (nchan x) (nchan y) = Some C"
      and z: "z = \<lparr>nbatch = B, ntime = T, nchan = C,
             elem = (\<lambda>b t c. f (bcast_elem x b t c) (bcast_elem y b t c))\<rparr>"
      by (auto simp add: tf_binop_eq_Inr)
    define z' where "z' = \<lparr>nbatch = B, ntime = T, nchan = C,
             elem = (\<lambda>b t c. f (bcast_elem x' b t c) (bcast_elem y' b t c))\<rparr>"
    have z': "tf_binop f x' y' = Inr z'"
      by (simp add: tf_binop_eq_Inr dx dy B T C z'_def)
    have "agree t z z'"
    proof (rule agreeI)
      fix b u c
      assume "b < nbatch z" "u < ntime z" "c < nchan z" and ut: "u \<le> t"
      then have r: "b < B" "u < T" "c < C" by (simp_all add: z)
      have "bcast_elem x b u c = bcast_elem x' b u c"
        using bidx_less [OF B r(1)] bidx_less [OF T r(2)] bidx_less [OF C r(3)] ut
        by (intro agree_bcast_elem [OF x]) simp_all
      moreover have "bcast_elem y b u c = bcast_elem y' b u c"
        using bidx_less [OF B r(1)] bidx_less [OF T r(2)] bidx_less [OF C r(3)] ut
        by (intro agree_bcast_elem [OF y]) simp_all
      ultimately show "elem z b u c = elem z' b u c" by (simp add: z z'_def)
    qed (simp_all add: z z'_def)
    with Inr z' show ?thesis by simp
  qed
qed

lemma agree_Conv_forward:
  assumes init: "Conv_init i n k d True = Inr cv" and a: "agree t x x'"
  shows "rel_sum (=) (agree t) (Conv_forward cv p x) (Conv_forward cv p x')"
proof -
  from init have k: "0 < k" and d: "0 < d"
    and cv: "cv = \<lparr>Conv_causal = True, Conv_padding = d * (k - 1),
           Conv_conv = \<lparr>filters = n, kernel_size = k, dilation_rate = d,
                        kernel_initializer = he_uniform, bias_initializer = zeros\<rparr>\<rparr>"
    by (simp_all add: Conv_init_eq_Inr)
  have ext: "nat (dilation_rate (Conv_conv cv)) * (nat (kernel_size (Conv_conv cv)) - 1)
      = nat (Conv_padding cv)"
    using nat_extent [OF k d] by (simp add: cv)
  show ?thesis
    unfolding Conv_forward_def
  proof (rule rel_bind_r [OF agree_tf_pad [OF a]])
    fix q q' assume "agree (t + nat (Conv_padding cv)) q q'"
    then have "agree t (Conv1D_call (Conv_conv cv) p q) (Conv1D_call (Conv_conv cv) p q')"
      unfolding ext [symmetric] by (rule agree_Conv1D_call)
    then show "rel_sum (=) (agree t)
        (let out = Conv1D_call (Conv_conv cv) p q
         in if Conv_causal cv \<and> Conv_padding cv \<noteq> 0
            then Inr (slice_time out (- Conv_padding cv)) else Inr out)
        (let out = Conv1D_call (Conv_conv cv) p q'
         in if Conv_causal cv \<and> Conv_padding cv \<noteq> 0
            then Inr (slice_time out (- Conv_padding cv)) else Inr out)"
      by (simp add: Let_def agree_slice_time)
  qed
qed


lemma agree_pointwise_call:
  assumes "kernel_size l = 1" and "agree t x x'"
  shows "agree t (Conv1D_call l p x) (Conv1D_call l p x')"
  by (rule agree_Conv1D_call) (simp add: assms)

lemma agree_add_conditioning:
  assumes "agree t h h'"
  shows "rel_sum (=) (agree t) (add_conditioning lc l p c h) (add_conditioning lc l p c h')"
proof (cases lc)
  case False
  with assms show ?thesis by (simp add: add_conditioning_def)
next
  case True
  show ?thesis
  proof (cases "call_layer l p c")
    case (Inl e)
    with True show ?thesis by (simp add: add_conditioning_def)
  next
    case (Inr hc)
    from agree_tf_binop [OF assms agree_refl, of "(+)" hc] True Inr show ?thesis
      by (simp add: add_conditioning_def tf_add_def)
  qed
qed

lemma agree_activated:
  assumes init: "ResBlock_init i n sk k d cin lc True = Inr rb" and a: "agree t s s'"
  shows "rel_sum (=) (agree t) (activated rb p s c) (activated rb p s' c)"
proof -
  from ResBlock_init_eq_Inr_pos [OF init] have pos: "0 < k" "0 < d" by simp_all
  from ResBlock_init_Inr [OF pos, of i n sk cin lc True] init
  have fci: "Conv_init i n k d True = Inr (Res_filter_conv rb)"
    and gci: "Conv_init i n k d True = Inr (Res_gate_conv rb)"
    by auto
  show ?thesis
    unfolding activated_def
  proof (intro rel_bind_r)
    show "rel_sum (=) (agree t) (Conv_forward (Res_filter_conv rb) (p_filter_conv p) s)
        (Conv_forward (Res_filter_conv rb) (p_filter_conv p) s')"
      by (rule agree_Conv_forward [OF fci a])
    show "rel_sum (=) (agree t) (Conv_forward (Res_gate_conv rb) (p_gate_conv p) s)
        (Conv_forward (Res_gate_conv rb) (p_gate_conv p) s')"
      by (rule agree_Conv_forward [OF gci a])
    fix hf hf' assume hf: "agree t hf hf'"
    show "rel_sum (=) (agree t)
        (add_conditioning (Res_local_conditioning rb) (Res_filter_conv_c rb) (p_filter_conv_c p) c hf)
        (add_conditioning (Res_local_conditioning rb) (Res_filter_conv_c rb) (p_filter_conv_c p) c hf')"
      by (rule agree_add_conditioning [OF hf])
    fix hg hg' assume hg: "agree t hg hg'"
    show "rel_sum (=) (agree t)
        (add_conditioning (Res_local_conditioning rb) (Res_gate_conv_c rb) (p_gate_conv_c p) c hg)
        (add_conditioning (Res_local_conditioning rb) (Res_gate_conv_c rb) (p_gate_conv_c p) c hg')"
      by (rule agree_add_conditioning [OF hg])
    fix f f' g g' assume "agree t f f'" "agree t g g'"
    then show "rel_sum (=) (agree t) (tf_mul (tf_tanh f) (tf_sigmoid g))
        (tf_mul (tf_tanh f') (tf_sigmoid g'))"
      unfolding tf_mul_def tf_tanh_def tf_sigmoid_def
      by (intro agree_tf_binop agree_map_tensor)
  qed
qed

lemma agree_ResBlock_forward:
  assumes init: "ResBlock_init i n sk k d cin lc True = Inr rb" and a: "agree t s s'"
  shows "rel_sum (=) (rel_prod (agree t) (rel_option (agree t)))
           (ResBlock_forward rb p s c) (ResBlock_forward rb p s' c)"
proof -
  from ResBlock_init_eq_Inr_pos [OF init] have pos: "0 < k" "0 < d" by simp_all
  from ResBlock_init_Inr [OF pos, of i n sk cin lc True] init
  have res: "kernel_size (Res_res_conv rb) = 1"
    and skc: "Res_skip_conv rb = map_option (\<lambda>m. \<lparr>filters = m, kernel_size = 1, dilation_rate = 1,
          kernel_initializer = he_uniform, bias_initializer = zeros\<rparr>) sk"
    by auto
  have skk: "kernel_size l = 1" if "Res_skip_conv rb = Some l" for l
    using that skc by (cases sk) auto
  show ?thesis
    unfolding ResBlock_forward_def
  proof (rule rel_bind_r [OF agree_activated [OF init a]])
    fix out out' assume o: "agree t out out'"
    have r: "agree t (Conv1D_call (Res_res_conv rb) (p_res_conv p) out)
        (Conv1D_call (Res_res_conv rb) (p_res_conv p) out')"
      by (rule agree_pointwise_call [OF res o])
    have sk: "rel_sum (=) (rel_option (agree t))
        (if Res_skip rb
         then bind_r (call_layer (Res_skip_conv rb) (p_skip_conv p) (Some out)) (\<lambda>s. Inr (Some s))
         else Inr None)
        (if Res_skip rb
         then bind_r (call_layer (Res_skip_conv rb) (p_skip_conv p) (Some out')) (\<lambda>s. Inr (Some s))
         else Inr None)"
    proof (cases "Res_skip_conv rb")
      case None
      then show ?thesis by (simp add: call_layer_def)
    next
      case (Some l)
      from agree_pointwise_call [OF skk [OF Some] o, of "p_skip_conv p"] Some
      show ?thesis by (simp add: call_layer_def)
    qed
    have fin: "rel_sum (=) (rel_prod (agree t) (rel_option (agree t)))
        (bind_r (tf_add s (Conv1D_call (Res_res_conv rb) (p_res_conv p) out))
           (\<lambda>sum. Inr (scalar_mul sum (sqrt 0.5), skip)))
        (bind_r (tf_add s' (Conv1D_call (Res_res_conv rb) (p_res_conv p) out'))
           (\<lambda>sum. Inr (scalar_mul sum (sqrt 0.5), skip')))"
      if "rel_option (agree t) skip skip'" for skip skip'
    proof (rule rel_bind_r)
      show "rel_sum (=) (agree t) (tf_add s (Conv1D_call (Res_res_conv rb) (p_res_conv p) out))
          (tf_add s' (Conv1D_call (Res_res_conv rb) (p_res_conv p) out'))"
        unfolding tf_add_def by (rule agree_tf_binop [OF a r])
      fix v v' assume "agree t v v'"
      then have "agree t (scalar_mul v (sqrt 0.5)) (scalar_mul v' (sqrt 0.5))"
        unfolding scalar_mul_def by (rule agree_map_tensor)
      with that show "rel_sum (=) (rel_prod (agree t) (rel_option (agree t)))
          (Inr (scalar_mul v (sqrt 0.5), skip)) (Inr (scalar_mul v' (sqrt 0.5), skip'))"
        by simp
    qed
    show "rel_sum (=) (rel_prod (agree t) (rel_option (agree t)))
        (let res = Conv1D_call (Res_res_conv rb) (p_res_conv p) out in
         bind_r (if Res_skip rb
                 then bind_r (call_layer (Res_skip_conv rb) (p_skip_conv p) (Some out))
                        (\<lambda>s. Inr (Some s))
                 else Inr None) (\<lambda>skip.
         bind_r (tf_add s res) (\<lambda>sum. Inr (scalar_mul sum (sqrt 0.5), skip))))
        (let res = Conv1D_call (Res_res_conv rb) (p_res_conv p) out' in
         bind_r (if Res_skip rb
                 then bind_r (call_layer (Res_skip_conv rb) (p_skip_conv p) (Some out'))
                        (\<lambda>s. Inr (Some s))
                 else Inr None) (\<lambda>skip.
         bind_r (tf_add s' res) (\<lambda>sum. Inr (scalar_mul sum (sqrt 0.5), skip))))"
      unfolding Let_def by (rule rel_bind_r [OF sk]) (rule fin)
  qed
qed

lemma agree_res_loop:
  assumes "\<forall>rb\<in>set fs. \<exists>i n sk k d cin lc. ResBlock_init i n sk k d cin lc True = Inr rb"
    and "agree t h h'" and "list_all2 (rel_option (agree t)) skip skip'"
  shows "rel_sum (=) (rel_prod (agree t) (list_all2 (rel_option (agree t))))
           (res_loop b pp c j fs h skip) (res_loop b pp c j fs h' skip')"
  using assms
proof (induction fs arbitrary: j h h' skip skip')
  case Nil
  then show ?case by simp
next
  case (Cons f fs)
  from Cons.prems(1) obtain i n sk k d cin lc where
    init: "ResBlock_init i n sk k d cin lc True = Inr f" by auto
  from Cons.prems(1) have rest: "\<forall>rb\<in>set fs. \<exists>i n sk k d cin lc.
      ResBlock_init i n sk k d cin lc True = Inr rb" by simp
  show ?case
    unfolding res_loop.simps
  proof (rule rel_bind_r [OF agree_ResBlock_forward [OF init Cons.prems(2)]])
    fix v v' :: "tensor \<times> tensor option"
    assume v: "rel_prod (agree t) (rel_option (agree t)) v v'"
    obtain h1 s1 where v1: "v = (h1, s1)" by (cases v)
    obtain h1' s1' where v1': "v' = (h1', s1')" by (cases v')
    from v have hh: "agree t h1 h1'" and ss: "rel_option (agree t) s1 s1'"
      by (simp_all add: v1 v1')
    have sk: "list_all2 (rel_option (agree t)) (if b then skip @ [s1] else skip)
        (if b then skip' @ [s1'] else skip')"
      using Cons.prems(3) ss by (simp add: list_all2_appendI)
    from Cons.IH [OF rest hh sk]
    show "rel_sum (=) (rel_prod (agree t) (list_all2 (rel_option (agree t))))
        (case v of (h', s) \<Rightarrow> res_loop b pp c (Suc j) fs h' (if b then skip @ [s] else skip))
        (case v' of (h', s) \<Rightarrow> res_loop b pp c (Suc j) fs h' (if b then skip' @ [s] else skip'))"
      by (simp add: v1 v1')
  qed
qed


lemma add_n_tail:
  assumes "list_all2 (rel_option (agree t)) ys ys'" and x: "agree t x x'"
  shows "list_all (\<lambda>y. case y of None \<Rightarrow> False | Some _ \<Rightarrow> True) ys'
           = list_all (\<lambda>y. case y of None \<Rightarrow> False | Some _ \<Rightarrow> True) ys \<and>
         (list_all (\<lambda>y. case y of None \<Rightarrow> False | Some _ \<Rightarrow> True) ys \<longrightarrow>
            list_all (\<lambda>y. same_shape (the y) x') ys' = list_all (\<lambda>y. same_shape (the y) x) ys \<and>
            (list_all (\<lambda>y. same_shape (the y) x) ys \<longrightarrow>
               (\<forall>b<nbatch x. \<forall>u<ntime x. \<forall>c<nchan x. u \<le> t \<longrightarrow>
                  sum_list (map (\<lambda>y. elem (the y) b u c) ys)
                    = sum_list (map (\<lambda>y. elem (the y) b u c) ys'))))"
  using assms(1)
proof (induction rule: list_all2_induct)
  case Nil
  then show ?case by simp
next
  case (Cons y ys y' ys')
  show ?case
  proof (cases y)
    case None
    with Cons.hyps(1) show ?thesis by (cases y') simp_all
  next
    case (Some v)
    with Cons.hyps(1) obtain v' where y': "y' = Some v'" and vv: "agree t v v'"
      by (cases y') simp_all
    note dv = agree_dims [OF vv] and dx = agree_dims [OF x]
    have sh: "same_shape v' x' = same_shape v x"
      by (simp add: same_shape_def dv dx)
    have el: "elem v b u c = elem v' b u c"
      if "same_shape v x" "b < nbatch x" "u < ntime x" "c < nchan x" "u \<le> t" for b u c
      using that agree_elem [OF vv, of b u c] by (simp add: same_shape_def)
    from Cons.IH sh el show ?thesis
      by (auto simp add: Some y')
  qed
qed

lemma agree_tf_add_n:
  assumes "list_all2 (rel_option (agree t)) sk sk'"
  shows "rel_sum (=) (agree t) (tf_add_n sk) (tf_add_n sk')"
proof (cases sk)
  case Nil
  with assms show ?thesis by simp
next
  case (Cons y ys)
  with assms obtain y' ys' where sk': "sk' = y' # ys'" and yy: "rel_option (agree t) y y'"
    and rest: "list_all2 (rel_option (agree t)) ys ys'"
    by (auto simp add: list_all2_Cons1)
  show ?thesis
  proof (cases y)
    case None
    with yy have "y' = None" by (cases y') simp_all
    with None Cons sk' show ?thesis by simp
  next
    case (Some x)
    with yy obtain x' where y': "y' = Some x'" and xx: "agree t x x'"
      by (cases y') simp_all
    note dx = agree_dims [OF xx]
    note tl = add_n_tail [OF rest xx]
    show ?thesis
    proof (cases "list_all (\<lambda>y. case y of None \<Rightarrow> False | Some _ \<Rightarrow> True) ys \<and>
        list_all (\<lambda>y. same_shape (the y) x) ys")
      case False
      with tl show ?thesis
        by (auto simp add: Cons sk' Some y')
    next
      case True
      with tl have c1: "list_all (\<lambda>y. case y of None \<Rightarrow> False | Some _ \<Rightarrow> True) ys'"
        and c2: "list_all (\<lambda>y. same_shape (the y) x') ys'"
        and sums: "\<forall>b<nbatch x. \<forall>u<ntime x. \<forall>c<nchan x. u \<le> t \<longrightarrow>
                  sum_list (map (\<lambda>y. elem (the y) b u c) ys)
                    = sum_list (map (\<lambda>y. elem (the y) b u c) ys')"
        by simp_all
      have "agree t
          (x\<lparr>elem := (\<lambda>b t c. elem x b t c + sum_list (map (\<lambda>y. elem (the y) b t c) ys))\<rparr>)
          (x'\<lparr>elem := (\<lambda>b t c. elem x' b t c + sum_list (map (\<lambda>y. elem (the y) b t c) ys'))\<rparr>)"
      proof (rule agreeI)
        fix b u c
        assume "b < nbatch (x\<lparr>elem := (\<lambda>b t c. elem x b t c + sum_list (map (\<lambda>y. elem (the y) b t c) ys))\<rparr>)"
          "u < ntime (x\<lparr>elem := (\<lambda>b t c. elem x b t c + sum_list (map (\<lambda>y. elem (the y) b t c) ys))\<rparr>)"
          "c < nchan (x\<lparr>elem := (\<lambda>b t c. elem x b t c + sum_list (map (\<lambda>y. elem (the y) b t c) ys))\<rparr>)"
          and ut: "u \<le> t"
        then have r: "b < nbatch x" "u < ntime x" "c < nchan x" by simp_all
        from agree_elem [OF xx r ut] sums r ut
        show "elem (x\<lparr>elem := (\<lambda>b t c. elem x b t c + sum_list (map (\<lambda>y. elem (the y) b t c) ys))\<rparr>) b u c
            = elem (x'\<lparr>elem := (\<lambda>b t c. elem x' b t c + sum_list (map (\<lambda>y. elem (the y) b t c) ys'))\<rparr>) b u c"
          by simp
      qed (simp_all add: dx)
      with True c1 c2 show ?thesis
        by (simp add: Cons sk' Some y')
    qed
  qed
qed

lemma agree_ZeroConv1d_forward:
  assumes "kernel_size (Zero_conv z) = 1" and a: "agree t x x'"
  shows "rel_sum (=) (agree t) (ZeroConv1d_forward z p x) (ZeroConv1d_forward z p x')"
  unfolding ZeroConv1d_forward_def Let_def tf_mul_def
  by (intro agree_tf_binop agree_pointwise_call assms agree_refl)

lemma agree_output_projection:
  assumes fin: "Conv_init i n 1 1 True = Inr (Wave_final_conv w)"
    and z: "kernel_size (Zero_conv (Wave_final_zero_conv w)) = 1"
    and a: "agree t x x'"
  shows "rel_sum (=) (agree t) (output_projection w p x) (output_projection w p x')"
  unfolding output_projection_def Let_def
proof (rule rel_bind_r)
  have "agree t (tf_relu x) (tf_relu x')"
    unfolding tf_relu_def by (rule agree_map_tensor [OF a])
  then show "rel_sum (=) (agree t) (Conv_forward (Wave_final_conv w) (p_final_conv p) (tf_relu x))
      (Conv_forward (Wave_final_conv w) (p_final_conv p) (tf_relu x'))"
    by (rule agree_Conv_forward [OF fin])
  fix v v' assume "agree t v v'"
  then have "agree t (tf_relu v) (tf_relu v')"
    unfolding tf_relu_def by (rule agree_map_tensor)
  then show "rel_sum (=) (agree t)
      (ZeroConv1d_forward (Wave_final_zero_conv w) (p_final_zero_conv p) (tf_relu v))
      (ZeroConv1d_forward (Wave_final_zero_conv w) (p_final_zero_conv p) (tf_relu v'))"
    by (rule agree_ZeroConv1d_forward [OF z])
qed

lemma layers_loop_members:
  "layers_loop R G S k cin c ns blocks = Inr res \<Longrightarrow> rb \<in> set res \<Longrightarrow>
     rb \<in> set blocks \<or> (\<exists>d. ResBlock_init R G S k d cin True c = Inr rb)"
proof (induction ns arbitrary: blocks)
  case Nil
  then show ?case by simp
next
  case (Cons n ns)
  from Cons.prems(1) obtain r1 where r1: "ResBlock_init R G S k (k ^ n) cin True c = Inr r1"
    and rest: "layers_loop R G S k cin c ns (blocks @ [r1]) = Inr res"
    by (auto simp add: bind_r_eq_Inr)
  from Cons.IH [OF rest Cons.prems(2)] r1 show ?case by auto
qed

lemma blocks_loop_members:
  "blocks_loop R G S k cin c L bs blocks = Inr res \<Longrightarrow> rb \<in> set res \<Longrightarrow>
     rb \<in> set blocks \<or> (\<exists>d. ResBlock_init R G S k d cin True c = Inr rb)"
proof (induction bs arbitrary: blocks)
  case Nil
  then show ?case by simp
next
  case (Cons b bs)
  from Cons.prems(1) obtain mid where mid: "layers_loop R G S k cin c (py_range L) blocks = Inr mid"
    and rest: "blocks_loop R G S k cin c L bs mid = Inr res"
    by (auto simp add: bind_r_eq_Inr)
  from Cons.IH [OF rest Cons.prems(2)] layers_loop_members [OF mid, of rb] show ?case by auto
qed

lemma agree_WaveNet_forward:
  assumes init: "WaveNet_init i n B L R G S k cin True = Inr w" and a: "agree t x x'"
  shows "rel_sum (=) (agree t) (WaveNet_forward w p x c) (WaveNet_forward w p x' c)"
proof -
  from init obtain front blocks final zero where
    fr: "Conv_init i R 3 1 True = Inr front"
    and bl: "blocks_loop R G S k cin True L (py_range B) [] = Inr blocks"
    and fi: "Conv_init (if S \<noteq> None then the S else R) (if S \<noteq> None then the S else R) 1 1 True = Inr final"
    and ze: "ZeroConv1d_init (if S \<noteq> None then the S else R) n = Inr zero"
    and w: "w = \<lparr>Wave_skip = (S \<noteq> None), Wave_front_conv = front, Wave_res_blocks = blocks,
             Wave_final_conv = final, Wave_final_zero_conv = zero\<rparr>"
    unfolding WaveNet_init_eq_Inr by blast
  have fr': "Conv_init i R 3 1 True = Inr (Wave_front_conv w)" using fr by (simp add: w)
  have fi': "Conv_init (if S \<noteq> None then the S else R) (if S \<noteq> None then the S else R) 1 1 True
      = Inr (Wave_final_conv w)" using fi by (simp add: w)
  have ze': "kernel_size (Zero_conv (Wave_final_zero_conv w)) = 1"
    using ze by (auto simp add: w ZeroConv1d_init_Inr)
  have mem: "\<forall>rb\<in>set (Wave_res_blocks w). \<exists>i n sk k d cin lc.
      ResBlock_init i n sk k d cin lc True = Inr rb"
    using blocks_loop_members [OF bl] by (fastforce simp add: w)
  show ?thesis
    unfolding WaveNet_forward_def Let_def
  proof (intro rel_bind_r)
    show "rel_sum (=) (agree t) (Conv_forward (Wave_front_conv w) (p_front_conv p) x)
        (Conv_forward (Wave_front_conv w) (p_front_conv p) x')"
      by (rule agree_Conv_forward [OF fr' a])
    fix h h' assume "agree t h h'"
    then have "agree t (tf_relu h) (tf_relu h')"
      unfolding tf_relu_def by (rule agree_map_tensor)
    then show "rel_sum (=) (rel_prod (agree t) (list_all2 (rel_option (agree t))))
        (res_loop (Wave_skip w) (p_res_blocks p) c 0 (Wave_res_blocks w) (tf_relu h) [])
        (res_loop (Wave_skip w) (p_res_blocks p) c 0 (Wave_res_blocks w) (tf_relu h') [])"
      by (intro agree_res_loop mem) simp_all
  next
    fix v v' :: "tensor \<times> tensor option list"
    assume v: "rel_prod (agree t) (list_all2 (rel_option (agree t))) v v'"
    obtain h1 s1 where v1: "v = (h1, s1)" by (cases v)
    obtain h1' s1' where v1': "v' = (h1', s1')" by (cases v')
    from v have hh: "agree t h1 h1'" and ss: "list_all2 (rel_option (agree t)) s1 s1'"
      by (simp_all add: v1 v1')
    have "rel_sum (=) (agree t)
        (if Wave_skip w then bind_r (tf_add_n s1) (\<lambda>out. output_projection w p out)
         else output_projection w p h1)
        (if Wave_skip w then bind_r (tf_add_n s1') (\<lambda>out. output_projection w p out)
         else output_projection w p h1')"
    proof (cases "Wave_skip w")
      case True
      have "rel_sum (=) (agree t) (bind_r (tf_add_n s1) (\<lambda>out. output_projection w p out))
          (bind_r (tf_add_n s1') (\<lambda>out. output_projection w p out))"
        by (rule rel_bind_r [OF agree_tf_add_n [OF ss]])
          (rule agree_output_projection [OF fi' ze'])
      with True show ?thesis by simp
    next
      case False
      with agree_output_projection [OF fi' ze' hh] show ?thesis by simp
    qed
    then show "rel_sum (=) (agree t)
        (case v of (h, skip) \<Rightarrow>
           if Wave_skip w then bind_r (tf_add_n skip) (\<lambda>out. output_projection w p out)
           else output_projection w p h)
        (case v' of (h, skip) \<Rightarrow>
           if Wave_skip w then bind_r (tf_add_n skip) (\<lambda>out. output_projection w p out)
           else output_projection w p h)"
      by (simp add: v1 v1')
  qed
qed


lemma WaveNet_init_succeeds:
  "0 < k \<Longrightarrow> \<exists>w. WaveNet_init i n B L R G S k cin c = Inr w"
  using blocks_loop_succeeds [of k R G S cin c L "py_range B" "[]"]
  by (auto simp add: WaveNet_init_eq_Inr Conv_init_Inr ZeroConv1d_init_Inr)

lemma causal_conv_values:
  "\<exists>y y'. Conv_forward causal_conv_3_2 unit_params ramp = Inr y \<and>
     Conv_forward causal_conv_3_2 unit_params ramp_changed = Inr y' \<and>
     ntime y = 4 \<and> elem y 0 2 0 = 4 \<and> elem y' 0 2 0 = 4 \<and> elem y 0 3 0 = 6 \<and> elem y' 0 3 0 = 102"
  by (simp add: Conv_forward_def causal_conv_3_2_def tf_pad_def Conv1D_call_def Let_def
      slice_time_def slice_stop_def unit_params_def ramp_def ramp_changed_def eval_nat_numeral)

text \<open>
  C1: For a Conv, a ResBlock and a WaveNet constructed with causal = true, two inputs
  of one shape that agree at all time indices up to \<open>t\<close> give the same outcome up to
  \<open>t\<close>: either both calls raise the same error, or both return, and the outputs (for a
  block: the new stream and the skip output) have one shape and agree at all time
  indices up to \<open>t\<close>, whatever the inputs are after \<open>t\<close>.
\<close>

theorem causality:
  assumes "agree t x x'"
  shows "(Conv_init in_channels out_channels ksize dilation True = Inr cv \<longrightarrow>
            rel_sum (=) (agree t) (Conv_forward cv p x) (Conv_forward cv p x')) \<and>
         (ResBlock_init in_channels' out_channels' skip_channels ksize' dilation' cin_channels
              local_conditioning True = Inr rb \<longrightarrow>
            rel_sum (=) (rel_prod (agree t) (rel_option (agree t)))
              (ResBlock_forward rb pb x c) (ResBlock_forward rb pb x' c)) \<and>
         (WaveNet_init in_channels'' out_channels'' num_blocks num_layers residual_channels
              gate_channels skip_channels' ksize'' cin_channels' True = Inr w \<longrightarrow>
            rel_sum (=) (agree t) (WaveNet_forward w pw x c) (WaveNet_forward w pw x' c))"
  using assms
  by (blast intro: agree_Conv_forward agree_ResBlock_forward agree_WaveNet_forward)

theorem causality_witness:
  "agree 2 ramp ramp_changed \<and> elem ramp 0 3 0 \<noteq> elem ramp_changed 0 3 0 \<and>
   Conv_init 1 1 3 2 True = Inr causal_conv_3_2 \<and>
   rel_sum (=) (agree 2) (Conv_forward causal_conv_3_2 unit_params ramp)
     (Conv_forward causal_conv_3_2 unit_params ramp_changed) \<and>
   (\<exists>y y'. Conv_forward causal_conv_3_2 unit_params ramp = Inr y \<and>
      Conv_forward causal_conv_3_2 unit_params ramp_changed = Inr y' \<and>
      ntime y = 4 \<and> elem y 0 2 0 = 4 \<and> elem y' 0 2 0 = 4 \<and> elem y 0 3 0 = 6 \<and>
      elem y' 0 3 0 = 102) \<and>
   ResBlock_init 1 1 (Some 1) 3 1 (Some 1) True True = Inr gated_block \<and>
   rel_sum (=) (rel_prod (agree 2) (rel_option (agree 2)))
     (ResBlock_forward gated_block unit_block_params ramp (Some ramp))
     (ResBlock_forward gated_block unit_block_params ramp_changed (Some ramp)) \<and>
   (\<exists>w. WaveNet_init 1 2 1 3 4 4 (Some 4) 3 (Some 1) True = Inr w \<and>
      rel_sum (=) (agree 2) (WaveNet_forward w unit_wave_params ramp (Some ramp))
        (WaveNet_forward w unit_wave_params ramp_changed (Some ramp)))"
proof -
  have a: "agree 2 ramp ramp_changed"
    by (simp add: agree_def same_shape_def ramp_def ramp_changed_def)
  have ne: "elem ramp 0 3 0 \<noteq> elem ramp_changed 0 3 0"
    by (simp add: ramp_def ramp_changed_def)
  have cv: "Conv_init 1 1 3 2 True = Inr causal_conv_3_2"
    by (simp add: Conv_init_eq_Inr causal_conv_3_2_def)
  obtain w where w: "WaveNet_init 1 2 1 3 4 4 (Some 4) 3 (Some 1) True = Inr w"
    using WaveNet_init_succeeds [of 3 1 2 1 3 4 4 "Some 4" "Some 1" True] by auto
  note th = causality [OF a, where cv = causal_conv_3_2 and p = unit_params
      and in_channels = 1 and out_channels = 1 and ksize = 3 and dilation = 2
      and rb = gated_block and pb = unit_block_params and c = "Some ramp"
      and in_channels' = 1 and out_channels' = 1 and skip_channels = "Some 1" and ksize' = 3
      and dilation' = 1 and cin_channels = "Some 1" and local_conditioning = True
      and w = w and pw = unit_wave_params and in_channels'' = 1 and out_channels'' = 2
      and num_blocks = 1 and num_layers = 3 and residual_channels = 4 and gate_channels = 4
      and skip_channels' = "Some 4" and ksize'' = 3 and cin_channels' = "Some 1"]
  from th a ne cv gated_block_init w causal_conv_values show ?thesis by blast
qed

end
